theory Spec2Isabelle
  imports
    Complex_Main
    "HOL-Library.AList"
    "HOL-Library.Sublist"
    "HOL-Library.Signed_Division"
begin

section \<open>Domain Reconciler: \<open>merge\<close> of \<open>cmd/cmd_renew.go\<close>\<close>

text \<open>
  The inner loop of \<open>merge\<close>: it walks the current value of \<open>prevDomains\<close> and stops at
  the first entry equal to \<open>next\<close> (Go string equality: byte for byte, case-sensitive).
\<close>

fun found :: "string list \<Rightarrow> string \<Rightarrow> bool" where
  "found [] nxt = False"
| "found (prev # rest) nxt = (if prev = nxt then True else found rest nxt)"

text \<open>
  The outer loop. \<open>prevDomains\<close> is reassigned by \<open>append\<close>, so the inner loop of a later
  iteration sees the entries appended by the earlier ones.
\<close>

fun merge :: "string list \<Rightarrow> string list \<Rightarrow> string list" where
  "merge prevDomains [] = prevDomains"
| "merge prevDomains (nxt # nextDomains) =
     merge (if \<not> found prevDomains nxt then prevDomains @ [nxt] else prevDomains) nextDomains"

text \<open>
  The reconciler in the words of the specification: the elements appended to \<open>prev\<close> are
  the elements of \<open>next\<close> that \<open>prev\<close> does not hold, each at its first occurrence, in the
  order of \<open>next\<close>.
\<close>

definition new_domains :: "string list \<Rightarrow> string list \<Rightarrow> string list" where
  "new_domains prev nxts = rev (remdups (rev (filter (\<lambda>d. d \<notin> set prev) nxts)))"

section \<open>DNS provider: \<open>providers/dns/arvancloud/arvancloud.go\<close>\<close>

subsection \<open>Data\<close>

text \<open>
  \<open>time.Duration\<close> is a signed 64-bit count of nanoseconds. The provider only stores and
  returns durations, so they are integers here; \<open>Second\<close> is \<open>time.Second\<close>.
\<close>

type_synonym Duration = int

definition Second :: Duration where
  "Second = 1000000000"

definition minTTL :: int where
  "minTTL = 600"

definition EnvAPIKey :: string where
  "EnvAPIKey = ''ARVANCLOUD_API_KEY''"

definition EnvTTL :: string where
  "EnvTTL = ''ARVANCLOUD_TTL''"

definition EnvPropagationTimeout :: string where
  "EnvPropagationTimeout = ''ARVANCLOUD_PROPAGATION_TIMEOUT''"

definition EnvPollingInterval :: string where
  "EnvPollingInterval = ''ARVANCLOUD_POLLING_INTERVAL''"

definition EnvHTTPTimeout :: string where
  "EnvHTTPTimeout = ''ARVANCLOUD_HTTP_TIMEOUT''"

text \<open>\<open>http.Client\<close>, of which the provider sets the \<open>Timeout\<close> field only.\<close>

datatype http_Client = http_Client (http_Timeout: Duration)

text \<open>\<open>Config\<close>. The field \<open>HTTPClient\<close> is a pointer: \<open>None\<close> is \<open>nil\<close>.\<close>

record Config =
  APIKey :: string
  PropagationTimeout :: Duration
  PollingInterval :: Duration
  TTL :: int
  HTTPClient :: "http_Client option"

text \<open>
  \<open>internal.Client\<close> belongs to the package \<open>internal\<close> of the provider. The provider
  assigns its field \<open>HTTPClient\<close> and hands the API key to its constructor
  \<open>internal.NewClient\<close>, which is a parameter wherever it is called.
\<close>

record Client =
  client_apiKey :: string
  client_HTTPClient :: http_Client

record DNSProvider =
  config :: Config
  client :: Client

text \<open>
  Error values. Each constructor stands for one message of the source:
  \<^item> \<open>ErrNilConfig\<close>: "arvanCloud: the configuration of the DNS provider is nil";
  \<^item> \<open>ErrCredentialsMissing\<close>: "arvanCloud: credentials missing";
  \<^item> \<open>ErrInvalidTTL ttl min\<close>: "arvanCloud: invalid TTL, TTL (ttl) must be greater than min";
  \<^item> \<open>ErrEnv e\<close>: "arvanCloud: " wrapping the error of \<open>env.Get\<close>;
  \<^item> \<open>ErrAddTXT fqdn domain e\<close>: "arvanCloud: failed to add TXT record: fqdn=..., domain name=...: "
    wrapping \<open>e\<close>;
  \<^item> \<open>ErrArvan e\<close>: "arvanCloud: " wrapping the error of the record lookup;
  \<^item> \<open>ErrDeleteTXT id name e\<close>: "arvanCloud: failed to delate TXT record: id=..., name=...: "
    wrapping \<open>e\<close>;
  \<^item> \<open>ErrExternal msg\<close>: an error produced outside the provider (API client, environment).
\<close>

datatype error =
    ErrNilConfig
  | ErrCredentialsMissing
  | ErrInvalidTTL int int
  | ErrEnv error
  | ErrAddTXT string string error
  | ErrArvan error
  | ErrDeleteTXT string string error
  | ErrExternal string

subsection \<open>Construction\<close>

text \<open>
  The helpers of the package \<open>env\<close> are parameters:
  \<open>GetOrDefaultInt name dflt\<close>, \<open>GetOrDefaultSecond name dflt\<close>, and \<open>Get name\<close>, which
  gives the values of the named variable as an association list or an error.
\<close>

record env_pkg =
  GetOrDefaultInt :: "string \<Rightarrow> int \<Rightarrow> int"
  GetOrDefaultSecond :: "string \<Rightarrow> Duration \<Rightarrow> Duration"
  Get :: "string \<Rightarrow> error + (string \<times> string) list"

text \<open>Reading a Go \<open>map[string]string\<close>: an absent key reads as the empty string.\<close>

definition map_index :: "(string \<times> string) list \<Rightarrow> string \<Rightarrow> string" where
  "map_index m k = (case map_of m k of None \<Rightarrow> [] | Some v \<Rightarrow> v)"

definition NewDefaultConfig :: "env_pkg \<Rightarrow> Config" where
  "NewDefaultConfig env =
     \<lparr> APIKey = [],
       PropagationTimeout = GetOrDefaultSecond env EnvPropagationTimeout (120 * Second),
       PollingInterval = GetOrDefaultSecond env EnvPollingInterval (2 * Second),
       TTL = GetOrDefaultInt env EnvTTL minTTL,
       HTTPClient = Some (http_Client (GetOrDefaultSecond env EnvHTTPTimeout (30 * Second))) \<rparr>"

text \<open>
  \<open>NewDNSProviderConfig\<close>. The argument is a pointer: \<open>None\<close> is \<open>nil\<close>. The three checks
  are made in the order of the source, each returning \<open>(nil, err)\<close>.
\<close>

definition NewDNSProviderConfig :: "(string \<Rightarrow> Client) \<Rightarrow> Config option \<Rightarrow> error + DNSProvider" where
  "NewDNSProviderConfig NewClient cfg =
     (case cfg of
        None \<Rightarrow> Inl ErrNilConfig
      | Some c \<Rightarrow>
          if APIKey c = [] then Inl ErrCredentialsMissing
          else if TTL c < minTTL then Inl (ErrInvalidTTL (TTL c) minTTL)
          else
            let cl = NewClient (APIKey c);
                cl' = (case HTTPClient c of
                         Some h \<Rightarrow> cl\<lparr>client_HTTPClient := h\<rparr>
                       | None \<Rightarrow> cl)
            in Inr \<lparr>config = c, client = cl'\<rparr>)"

definition NewDNSProvider :: "env_pkg \<Rightarrow> (string \<Rightarrow> Client) \<Rightarrow> error + DNSProvider" where
  "NewDNSProvider env NewClient =
     (case Get env EnvAPIKey of
        Inl err \<Rightarrow> Inl (ErrEnv err)
      | Inr values \<Rightarrow>
          NewDNSProviderConfig NewClient
            (Some ((NewDefaultConfig env)\<lparr>APIKey := map_index values EnvAPIKey\<rparr>)))"

text \<open>\<open>Timeout\<close> returns the two fields of the configuration as they are.\<close>

definition Timeout :: "DNSProvider \<Rightarrow> Duration \<times> Duration" where
  "Timeout d = (PropagationTimeout (config d), PollingInterval (config d))"

text \<open>
  An environment that sets none of the variables (every helper returns its default), a
  client constructor, and a configuration that a caller of \<open>NewDNSProviderConfig\<close> can
  write down: credential present, TTL at the floor, both durations zero.
\<close>

definition env_unset :: env_pkg where
  "env_unset =
     \<lparr> GetOrDefaultInt = (\<lambda>name dflt. dflt),
       GetOrDefaultSecond = (\<lambda>name dflt. dflt),
       Get = (\<lambda>name. Inl (ErrExternal ''environment variable missing'')) \<rparr>"

definition plain_client :: "string \<Rightarrow> Client" where
  "plain_client key = \<lparr>client_apiKey = key, client_HTTPClient = http_Client 0\<rparr>"

definition cfg_zero_wait :: Config where
  "cfg_zero_wait =
     \<lparr> APIKey = ''key'', PropagationTimeout = 0, PollingInterval = 0, TTL = 600,
       HTTPClient = None \<rparr>"

definition prov_zero_wait :: DNSProvider where
  "prov_zero_wait = \<lparr>config = cfg_zero_wait, client = plain_client ''key''\<rparr>"

definition prov_default :: DNSProvider where
  "prov_default =
     \<lparr>config = (NewDefaultConfig env_unset)\<lparr>APIKey := ''key''\<rparr>,
      client = \<lparr>client_apiKey = ''key'', client_HTTPClient = http_Client (30 * Second)\<rparr>\<rparr>"

text \<open>
  The specification's class \<open>ConfigurationError\<close>: the three errors that construction
  itself raises.
\<close>

definition ConfigurationError :: "error \<Rightarrow> bool" where
  "ConfigurationError e =
     (case e of
        ErrNilConfig \<Rightarrow> True
      | ErrCredentialsMissing \<Rightarrow> True
      | ErrInvalidTTL t m \<Rightarrow> True
      | _ \<Rightarrow> False)"

subsection \<open>Challenge records\<close>

text \<open>
  \<open>internal.DNSRecord\<close> with the fields the provider reads or writes (\<open>ID\<close>, \<open>Type\<close>,
  \<open>Name\<close>, \<open>Value\<close>, \<open>TTL\<close>, \<open>UpstreamHTTPS\<close>, \<open>IPFilterMode\<close>); \<open>Value\<close> is an
  \<open>internal.TxtValue\<close>.
\<close>

datatype TxtValue = TxtValue (Text: string)

datatype IPFilterMode = IPFilterMode (Count: string) (GeoFilter: string) (Order: string)

record DNSRecord =
  rec_ID :: string
  rec_Type :: string
  rec_Name :: string
  rec_Value :: TxtValue
  rec_TTL :: int
  rec_UpstreamHTTPS :: string
  rec_IPFilterMode :: IPFilterMode

text \<open>
  The two functions of package \<open>dns01\<close> that the provider calls, as parameters:
  \<open>GetRecord domain keyAuth\<close> gives the record's fully qualified name and its value,
  \<open>UnFqdn\<close> removes the trailing dot of a fully qualified name.
\<close>

record dns01_pkg =
  GetRecord :: "string \<Rightarrow> string \<Rightarrow> string \<times> string"
  UnFqdn :: "string \<Rightarrow> string"

text \<open>
  The three methods of \<open>internal.Client\<close> that the provider calls, as parameters. They
  talk to the backend, whose state is a value of type \<open>'b\<close> that each call takes and
  returns. A lookup returns a record or an error.
\<close>

record 'b client_ops =
  CreateRecord :: "Client \<Rightarrow> string \<Rightarrow> DNSRecord \<Rightarrow> 'b \<Rightarrow> error option \<times> 'b"
  GetTxtRecord :: "Client \<Rightarrow> string \<Rightarrow> string \<Rightarrow> string \<Rightarrow> 'b \<Rightarrow> (error + DNSRecord) \<times> 'b"
  DeleteRecord :: "Client \<Rightarrow> string \<Rightarrow> string \<Rightarrow> 'b \<Rightarrow> error option \<times> 'b"

text \<open>The backend operations a call of the provider issues, in order.\<close>

datatype api_call =
    CallCreateRecord string DNSRecord
  | CallGetTxtRecord string string string
  | CallDeleteRecord string string

text \<open>
  \<open>strings.Index s sub\<close>: the index of the first occurrence of \<open>sub\<close> in \<open>s\<close>, or \<open>-1\<close>.
\<close>

fun Index :: "string \<Rightarrow> string \<Rightarrow> int" where
  "Index [] sub = (if sub = [] then 0 else -1)"
| "Index (c # cs) sub =
     (if prefix sub (c # cs) then 0
      else (let i = Index cs sub in if i = -1 then -1 else i + 1))"

definition extractRecordName :: "dns01_pkg \<Rightarrow> string \<Rightarrow> string \<Rightarrow> string" where
  "extractRecordName dns01 fqdn domain =
     (let name = UnFqdn dns01 fqdn;
          idx = Index name (''.'' @ domain)
      in if idx \<noteq> -1 then take (nat idx) name else name)"

text \<open>
  \<open>Present\<close> and \<open>CleanUp\<close> return the error (\<open>None\<close> is \<open>nil\<close>), the backend operations
  issued and the backend state afterwards. The parameter \<open>token\<close> is not read by the source.
\<close>

definition Present ::
  "dns01_pkg \<Rightarrow> 'b client_ops \<Rightarrow> DNSProvider \<Rightarrow> string \<Rightarrow> string \<Rightarrow> string \<Rightarrow> 'b
     \<Rightarrow> error option \<times> api_call list \<times> 'b" where
  "Present dns01 ops d domain token keyAuth s =
     (let (fqdn, val) = GetRecord dns01 domain keyAuth;
          record = \<lparr> rec_ID = [],
                     rec_Type = ''txt'',
                     rec_Name = extractRecordName dns01 fqdn domain,
                     rec_Value = TxtValue val,
                     rec_TTL = TTL (config d),
                     rec_UpstreamHTTPS = ''default'',
                     rec_IPFilterMode = IPFilterMode ''single'' ''none'' ''none'' \<rparr>
      in case CreateRecord ops (client d) domain record s of
           (Some err, s') \<Rightarrow> (Some (ErrAddTXT fqdn domain err), [CallCreateRecord domain record], s')
         | (None, s') \<Rightarrow> (None, [CallCreateRecord domain record], s'))"

definition CleanUp ::
  "dns01_pkg \<Rightarrow> 'b client_ops \<Rightarrow> DNSProvider \<Rightarrow> string \<Rightarrow> string \<Rightarrow> string \<Rightarrow> 'b
     \<Rightarrow> error option \<times> api_call list \<times> 'b" where
  "CleanUp dns01 ops d domain token keyAuth s =
     (let (fqdn, val) = GetRecord dns01 domain keyAuth;
          recordName = extractRecordName dns01 fqdn domain
      in case GetTxtRecord ops (client d) domain recordName val s of
           (Inl err, s') \<Rightarrow> (Some (ErrArvan err), [CallGetTxtRecord domain recordName val], s')
         | (Inr record, s') \<Rightarrow>
             (case DeleteRecord ops (client d) domain (rec_ID record) s' of
                (Some err, s'') \<Rightarrow>
                  (Some (ErrDeleteTXT (rec_ID record) (rec_Name record) err),
                   [CallGetTxtRecord domain recordName val,
                    CallDeleteRecord domain (rec_ID record)], s'')
              | (None, s'') \<Rightarrow>
                  (None,
                   [CallGetTxtRecord domain recordName val,
                    CallDeleteRecord domain (rec_ID record)], s'')))"

subsection \<open>A backend to run the provider on\<close>








subsection \<open>The caller of the provider\<close>




section \<open>Renewal Decision Policy: \<open>needRenewal\<close> of \<open>cmd/cmd_renew.go\<close>\<close>

subsection \<open>Binary64 arithmetic\<close>

text \<open>
  \<open>time.Duration.Hours\<close> and the division by \<open>24.0\<close> are computed in \<open>float64\<close>. A
  \<open>float64\<close> value is the rational number it denotes, and \<open>f64\<close> rounds a rational to
  the nearest number with a 53-bit significand, ties to the even significand, as every
  IEEE 754 binary64 operation rounds its exact result. The exponent range, infinities and
  NaN are not modelled: every nonzero value of this computation has a magnitude between
  \<open>2\<^sup>-\<^sup>4\<^sup>7\<close> and \<open>2\<^sup>2\<^sup>2\<close>.

  \<open>bitlen n\<close> is the number of binary digits of a positive \<open>n\<close>, \<open>lead_exp a q\<close> the
  exponent of the leading binary digit of \<open>a / q\<close>, and \<open>round_half_even n d\<close> the
  integer nearest to \<open>n / d\<close>, the even one of two equally near. In \<open>f64\<close>, \<open>m\<close> is
  the significand of the rounded value in units of \<open>2\<^sup>e\<close>.
\<close>

function bitlen :: "int \<Rightarrow> int" where
  "bitlen n = (if n \<le> 0 then 0 else 1 + bitlen (n div 2))"
  by pat_completeness auto
termination
  by (relation "measure nat") auto

declare bitlen.simps [simp del]

definition lead_exp :: "int \<Rightarrow> int \<Rightarrow> int" where
  "lead_exp a q =
     (let k = bitlen a - bitlen q
      in if q * 2 ^ nat k \<le> a * 2 ^ nat (- k) then k else k - 1)"

definition round_half_even :: "int \<Rightarrow> int \<Rightarrow> int" where
  "round_half_even n d =
     (let m0 = n div d;
          r = n mod d
      in if 2 * r < d \<or> (2 * r = d \<and> even m0) then m0 else m0 + 1)"

definition f64 :: "rat \<Rightarrow> rat" where
  "f64 x =
     (let (p, q) = quotient_of x;
          a = \<bar>p\<bar>;
          e = lead_exp a q - 52;
          m = round_half_even (a * 2 ^ nat (- e)) (q * 2 ^ nat e)
      in if p = 0 then 0 else of_int (sgn p * m) * 2 ^ nat e / 2 ^ nat (- e))"

text \<open>
  The conversion \<open>int(x)\<close> of a \<open>float64\<close> discards the fraction (truncation toward
  zero). The values converted here are far inside the range of \<open>int\<close>.
\<close>

definition int_of_float64 :: "rat \<Rightarrow> int" where
  "int_of_float64 x = (if 0 \<le> x then \<lfloor>x\<rfloor> else \<lceil>x\<rceil>)"

subsection \<open>Time\<close>

text \<open>
  A \<open>time.Time\<close> is the number of nanoseconds since a fixed instant. \<open>time.Until t\<close> is
  \<open>t.Sub(time.Now())\<close>: the difference, saturated to the range of the signed 64-bit
  \<open>Duration\<close>. The current time is a parameter.
\<close>

type_synonym Time = int

definition minDuration :: Duration where
  "minDuration = - 9223372036854775808"

definition maxDuration :: Duration where
  "maxDuration = 9223372036854775807"

definition Until :: "Time \<Rightarrow> Time \<Rightarrow> Duration" where
  "Until t now =
     (let d = t - now
      in if d < minDuration then minDuration else if maxDuration < d then maxDuration else d)"

definition Hour :: Duration where
  "Hour = 3600000000000"

text \<open>
  \<open>Duration.Hours\<close>: \<open>hour := d / Hour; nsec := d % Hour;
  return float64(hour) + float64(nsec)/(60*60*1e9)\<close>. Integer division and remainder of
  Go truncate toward zero (\<open>sdiv\<close>, \<open>smod\<close>).
\<close>

definition Hours :: "Duration \<Rightarrow> rat" where
  "Hours d =
     (let hour = d sdiv Hour;
          nsec = d smod Hour
      in f64 (f64 (of_int hour) + f64 (f64 (of_int nsec) / 3600000000000)))"

subsection \<open>The decision\<close>

text \<open>
  The fields of \<open>x509.Certificate\<close> that the renewal reads: \<open>IsCA\<close> and \<open>NotAfter\<close> here,
  the subject's common name and the DNS names where the domains are extracted.
\<close>

record Certificate =
  IsCA :: bool
  NotAfter :: Time
  CommonName :: string
  DNSNames :: "string list"

text \<open>
  The ways a run ends without returning: \<open>log.Fatal\<close>/\<open>log.Fatalf\<close> (the process exits)
  and an index out of range (the process panics).
  \<^item> \<open>FatalCACertificate domain\<close>: "[domain] Certificate bundle starts with a CA certificate";
  \<^item> \<open>FatalLoadCertificate domain e\<close>: "Error while loading the certificate for domain ...";
  \<^item> \<open>FatalLoadKey domain e\<close>: "Error while loading the private key for domain ...";
  \<^item> \<open>FatalError e\<close>: \<open>log.Fatal(err)\<close>;
  \<^item> \<open>FatalNotRegistered email\<close>: "Account ... is not registered. ...";
  \<^item> \<open>PanicIndexOutOfRange\<close>: \<open>domains[0]\<close> or \<open>certificates[0]\<close> of an empty slice.
\<close>

datatype fatal =
    FatalCACertificate string
  | FatalLoadCertificate string error
  | FatalLoadKey string error
  | FatalError error
  | FatalNotRegistered string
  | PanicIndexOutOfRange

text \<open>
  \<open>daysLeft\<close> is the local \<open>notAfter\<close> of \<open>needRenewal\<close>:
  \<open>int(time.Until(x509Cert.NotAfter).Hours() / 24.0)\<close>, as a function of the duration.
\<close>

definition daysLeft :: "Duration \<Rightarrow> int" where
  "daysLeft d = int_of_float64 (f64 (Hours d / 24))"

text \<open>
  \<open>needRenewal\<close>: \<open>Inl\<close> is the fatal exit, \<open>Inr\<close> the returned boolean. The message
  logged before \<open>false\<close> is returned is not part of the result.
\<close>

definition needRenewal :: "Certificate \<Rightarrow> string \<Rightarrow> int \<Rightarrow> Time \<Rightarrow> fatal + bool" where
  "needRenewal x509Cert domain days now =
     (if IsCA x509Cert then Inl (FatalCACertificate domain)
      else if 0 \<le> days then
        (let notAfter = daysLeft (Until (NotAfter x509Cert) now)
         in if days < notAfter then Inr False else Inr True)
      else Inr True)"

text \<open>
  Days left in the words of the specification: the floor of the hours until \<open>NotAfter\<close>
  divided by 24, over the exact duration.
\<close>

definition spec_daysLeft :: "Duration \<Rightarrow> int" where
  "spec_daysLeft d = \<lfloor>(of_int d / of_int Hour) / (24 :: rat)\<rfloor>"

text \<open>Certificates for the examples: a leaf valid until \<open>t\<close>, and a CA certificate.\<close>

definition leaf_until :: "Time \<Rightarrow> Certificate" where
  "leaf_until t =
     \<lparr>IsCA = False, NotAfter = t, CommonName = ''example.com'', DNSNames = [''example.com'']\<rparr>"

definition ca_cert :: Certificate where
  "ca_cert = \<lparr>IsCA = True, NotAfter = 0, CommonName = ''Example CA'', DNSNames = []\<rparr>"

section \<open>Renewal workflow: \<open>renew\<close>, \<open>renewForDomains\<close> and \<open>renewForCSR\<close> of \<open>cmd/cmd_renew.go\<close>\<close>

subsection \<open>Data\<close>

definition renewEnvAccountEmail :: string where
  "renewEnvAccountEmail = ''LEGO_ACCOUNT_EMAIL''"

definition renewEnvCertDomain :: string where
  "renewEnvCertDomain = ''LEGO_CERT_DOMAIN''"

definition renewEnvCertPath :: string where
  "renewEnvCertPath = ''LEGO_CERT_PATH''"

definition renewEnvCertKeyPath :: string where
  "renewEnvCertKeyPath = ''LEGO_CERT_KEY_PATH''"

text \<open>
  The options of \<open>cli.Context\<close> that the command reads: \<open>GlobalStringSlice("domains")\<close>,
  \<open>GlobalString("csr")\<close>, \<open>GlobalIsSet("csr")\<close>, \<open>Int("days")\<close>, \<open>Bool("reuse-key")\<close>,
  \<open>Bool("no-bundle")\<close>, \<open>Bool("must-staple")\<close> and \<open>String("renew-hook")\<close>.
\<close>

record Context =
  ctx_domains :: "string list"
  ctx_csr :: string
  ctx_csr_set :: bool
  ctx_days :: int
  ctx_reuse_key :: bool
  ctx_no_bundle :: bool
  ctx_must_staple :: bool
  ctx_renew_hook :: string

text \<open>The account as \<open>setup\<close> returns it; \<open>Registration\<close> is a pointer (\<open>None\<close> is \<open>nil\<close>).\<close>

record Account =
  Email :: string
  Registration :: "string option"

datatype crypto_PrivateKey = ParsedKey string

record ObtainRequest =
  Domains :: "string list"
  Bundle :: bool
  PrivateKey :: "crypto_PrivateKey option"
  MustStaple :: bool

text \<open>\<open>x509.CertificateRequest\<close>, of which the command reads \<open>Subject.CommonName\<close>.\<close>

record CertificateRequest =
  csr_CommonName :: string
  csr_DNSNames :: "string list"

text \<open>\<open>certificate.Resource\<close>, which the command passes on unread.\<close>

record Resource =
  res_Domain :: string
  res_Certificate :: string

text \<open>
  The hook metadata is a Go \<open>map[string]string\<close>: an association list with one entry
  for each key, an assignment \<open>meta[k] = v\<close> being \<open>AList.update k v\<close>.
\<close>

type_synonym meta = "(string \<times> string) list"

text \<open>
  The collaborators of the command are declared in other files and packages. They are
  parameters, with the signatures of their call sites. Those that touch the file system, the network
  or the clock take and return the state \<open>'w\<close> of the world outside the program:
  the certificate storage (\<open>ReadCertificate\<close>, \<open>ReadFile\<close>, \<open>GetFileName\<close>,
  \<open>SaveResource\<close>), \<open>certcrypto\<close> (\<open>ExtractDomains\<close>, \<open>ParsePEMPrivateKey\<close>), the ACME
  client (\<open>Obtain\<close>, \<open>ObtainForCSR\<close>), \<open>readCSRFile\<close>, \<open>launchHook\<close> and \<open>time.Now\<close>.
  \<open>SaveResource\<close> returns nothing to its caller.
\<close>

record 'w collaborators =
  ReadCertificate :: "string \<Rightarrow> string \<Rightarrow> 'w \<Rightarrow> (error + Certificate list) \<times> 'w"
  ReadFile :: "string \<Rightarrow> string \<Rightarrow> 'w \<Rightarrow> (error + string) \<times> 'w"
  GetFileName :: "string \<Rightarrow> string \<Rightarrow> string"
  SaveResource :: "Resource \<Rightarrow> 'w \<Rightarrow> 'w"
  ExtractDomains :: "Certificate \<Rightarrow> string list"
  ParsePEMPrivateKey :: "string \<Rightarrow> error + crypto_PrivateKey"
  Obtain :: "ObtainRequest \<Rightarrow> 'w \<Rightarrow> (error + Resource) \<times> 'w"
  ObtainForCSR :: "CertificateRequest \<Rightarrow> bool \<Rightarrow> 'w \<Rightarrow> (error + Resource) \<times> 'w"
  readCSRFile :: "string \<Rightarrow> 'w \<Rightarrow> (error + CertificateRequest) \<times> 'w"
  launchHook :: "string \<Rightarrow> meta \<Rightarrow> 'w \<Rightarrow> error option \<times> 'w"
  Now :: "'w \<Rightarrow> Time"

text \<open>
  The calls a run makes to the collaborators that act on the world, in order; the
  issuing calls are recorded with their results.
\<close>

datatype event =
    EvReadCertificate string string
  | EvReadFile string string
  | EvReadCSRFile string
  | EvObtain ObtainRequest "error + Resource"
  | EvObtainForCSR CertificateRequest bool "error + Resource"
  | EvSaveResource Resource
  | EvLaunchHook string meta

text \<open>
  A run ends fatally (\<open>Inl\<close>) or returns an error or \<open>nil\<close> (\<open>Inr\<close>); with it come the
  calls made and the world afterwards.
\<close>

type_synonym 'w run = "(fatal + error option) \<times> event list \<times> 'w"

definition after :: "event list \<Rightarrow> 'w run \<Rightarrow> 'w run" where
  "after evs r = (case r of (out, tr, w) \<Rightarrow> (out, evs @ tr, w))"

subsection \<open>The command\<close>

text \<open>
  The common end of both variants (lines 136 to 142 and 176 to 182): persist the
  resource, complete the metadata, launch the hook and return its error.
\<close>

definition save_and_notify ::
  "'w collaborators \<Rightarrow> Context \<Rightarrow> meta \<Rightarrow> string \<Rightarrow> Resource \<Rightarrow> 'w \<Rightarrow> 'w run" where
  "save_and_notify co ctx meta domain certRes w =
     (let w1 = SaveResource co certRes w;
          meta1 = AList.update renewEnvCertDomain domain meta;
          meta2 = AList.update renewEnvCertPath (GetFileName co domain ''.crt'') meta1;
          meta3 = AList.update renewEnvCertKeyPath (GetFileName co domain ''.key'') meta2
      in case launchHook co (ctx_renew_hook ctx) meta3 w1 of
           (err, w2) \<Rightarrow>
             (Inr err, [EvSaveResource certRes, EvLaunchHook (ctx_renew_hook ctx) meta3], w2))"

text \<open>\<open>renewForDomains\<close> from the request on (lines 125 to 142), the private key known.\<close>

definition obtain_for_domains ::
  "'w collaborators \<Rightarrow> Context \<Rightarrow> bool \<Rightarrow> meta \<Rightarrow> string \<Rightarrow> Certificate
     \<Rightarrow> crypto_PrivateKey option \<Rightarrow> 'w \<Rightarrow> 'w run" where
  "obtain_for_domains co ctx bundle meta domain cert privateKey w =
     (let certDomains = ExtractDomains co cert;
          request = \<lparr> Domains = merge certDomains (ctx_domains ctx),
                      Bundle = bundle,
                      PrivateKey = privateKey,
                      MustStaple = ctx_must_staple ctx \<rparr>
      in case Obtain co request w of
           (Inl err, w1) \<Rightarrow> (Inl (FatalError err), [EvObtain request (Inl err)], w1)
         | (Inr certRes, w1) \<Rightarrow>
             after [EvObtain request (Inr certRes)]
               (save_and_notify co ctx meta domain certRes w1))"

definition renewForDomains ::
  "'w collaborators \<Rightarrow> Context \<Rightarrow> bool \<Rightarrow> meta \<Rightarrow> 'w \<Rightarrow> 'w run" where
  "renewForDomains co ctx bundle meta w =
     (case ctx_domains ctx of
        [] \<Rightarrow> (Inl PanicIndexOutOfRange, [], w)
      | domain # _ \<Rightarrow>
          after [EvReadCertificate domain ''.crt'']
            (case ReadCertificate co domain ''.crt'' w of
               (Inl err, w1) \<Rightarrow> (Inl (FatalLoadCertificate domain err), [], w1)
             | (Inr [], w1) \<Rightarrow> (Inl PanicIndexOutOfRange, [], w1)
             | (Inr (cert # _), w1) \<Rightarrow>
                 (case needRenewal cert domain (ctx_days ctx) (Now co w1) of
                    Inl f \<Rightarrow> (Inl f, [], w1)
                  | Inr need \<Rightarrow>
                      if \<not> need then (Inr None, [], w1)
                      else if ctx_reuse_key ctx then
                        after [EvReadFile domain ''.key'']
                          (case ReadFile co domain ''.key'' w1 of
                             (Inl errR, w2) \<Rightarrow> (Inl (FatalLoadKey domain errR), [], w2)
                           | (Inr keyBytes, w2) \<Rightarrow>
                               (case ParsePEMPrivateKey co keyBytes of
                                  Inl errR \<Rightarrow> (Inr (Some errR), [], w2)
                                | Inr key \<Rightarrow>
                                    obtain_for_domains co ctx bundle meta domain cert (Some key) w2))
                      else obtain_for_domains co ctx bundle meta domain cert None w1)))"

definition renewForCSR ::
  "'w collaborators \<Rightarrow> Context \<Rightarrow> bool \<Rightarrow> meta \<Rightarrow> 'w \<Rightarrow> 'w run" where
  "renewForCSR co ctx bundle meta w =
     after [EvReadCSRFile (ctx_csr ctx)]
       (case readCSRFile co (ctx_csr ctx) w of
          (Inl err, w0) \<Rightarrow> (Inl (FatalError err), [], w0)
        | (Inr csr, w0) \<Rightarrow>
            (let domain = csr_CommonName csr
             in after [EvReadCertificate domain ''.crt'']
                  (case ReadCertificate co domain ''.crt'' w0 of
                     (Inl err, w1) \<Rightarrow> (Inl (FatalLoadCertificate domain err), [], w1)
                   | (Inr [], w1) \<Rightarrow> (Inl PanicIndexOutOfRange, [], w1)
                   | (Inr (cert # _), w1) \<Rightarrow>
                       (case needRenewal cert domain (ctx_days ctx) (Now co w1) of
                          Inl f \<Rightarrow> (Inl f, [], w1)
                        | Inr need \<Rightarrow>
                            if \<not> need then (Inr None, [], w1)
                            else
                              (case ObtainForCSR co csr bundle w1 of
                                 (Inl err, w2) \<Rightarrow>
                                   (Inl (FatalError err), [EvObtainForCSR csr bundle (Inl err)], w2)
                               | (Inr certRes, w2) \<Rightarrow>
                                   after [EvObtainForCSR csr bundle (Inr certRes)]
                                     (save_and_notify co ctx meta domain certRes w2))))))"

text \<open>
  \<open>renew\<close>, from the account that \<open>setup\<close> returned. The metadata starts with the
  account's email.
\<close>

definition renew :: "'w collaborators \<Rightarrow> Context \<Rightarrow> Account \<Rightarrow> 'w \<Rightarrow> 'w run" where
  "renew co ctx account w =
     (if Registration account = None then (Inl (FatalNotRegistered (Email account)), [], w)
      else
        let bundle = \<not> ctx_no_bundle ctx;
            meta = [(renewEnvAccountEmail, Email account)]
        in if ctx_csr_set ctx then renewForCSR co ctx bundle meta w
           else renewForDomains co ctx bundle meta w)"

subsection \<open>Reading a run\<close>

text \<open>The hook invocations of a run, and whether an issuing call of the run succeeded.\<close>

fun hook_calls :: "event list \<Rightarrow> (string \<times> meta) list" where
  "hook_calls [] = []"
| "hook_calls (EvLaunchHook hook m # evs) = (hook, m) # hook_calls evs"
| "hook_calls (_ # evs) = hook_calls evs"

fun issued :: "event list \<Rightarrow> bool" where
  "issued [] = False"
| "issued (EvObtain request (Inr certRes) # evs) = True"
| "issued (EvObtainForCSR csr bundle (Inr certRes) # evs) = True"
| "issued (_ # evs) = issued evs"

text \<open>What the hook is given when it is launched for a domain by an account.\<close>

definition hook_call_of :: "'w collaborators \<Rightarrow> Context \<Rightarrow> string \<Rightarrow> string \<Rightarrow> string \<times> meta" where
  "hook_call_of co ctx email domain =
     (ctx_renew_hook ctx,
      [(renewEnvAccountEmail, email), (renewEnvCertDomain, domain),
       (renewEnvCertPath, GetFileName co domain ''.crt''),
       (renewEnvCertKeyPath, GetFileName co domain ''.key'')])"

text \<open>
  Modelled from the spec: \<open>certcrypto.ExtractDomains\<close> and the other collaborators, whose
  code is not in \<open>cmd_renew.go\<close>. For the example run of the specification (8): the domain
  set of a certificate is its common name and its subject alternative names; the stored
  certificate expires in 10 days; issuance succeeds; the files of a domain are addressed
  by domain name and extension. The world is the list of the domains saved so far.
\<close>

definition example_co :: "string list collaborators" where
  "example_co =
     \<lparr> ReadCertificate = (\<lambda>domain ext w. (Inr [leaf_until (10 * 24 * Hour)], w)),
       ReadFile = (\<lambda>domain ext w. (Inr ''key'', w)),
       GetFileName = (\<lambda>domain ext. ''.lego/certificates/'' @ domain @ ext),
       SaveResource = (\<lambda>certRes w. w @ [res_Domain certRes]),
       ExtractDomains = (\<lambda>cert. CommonName cert # filter (\<lambda>d. d \<noteq> CommonName cert) (DNSNames cert)),
       ParsePEMPrivateKey = (\<lambda>keyBytes. Inr (ParsedKey keyBytes)),
       Obtain = (\<lambda>request w. (Inr \<lparr>res_Domain = hd (Domains request), res_Certificate = ''pem''\<rparr>, w)),
       ObtainForCSR = (\<lambda>csr bundle w. (Inr \<lparr>res_Domain = csr_CommonName csr, res_Certificate = ''pem''\<rparr>, w)),
       readCSRFile = (\<lambda>path w.
          if path = ''example.csr''
          then (Inr \<lparr>csr_CommonName = ''example.com'', csr_DNSNames = [''example.com'']\<rparr>, w)
          else (Inl (ErrExternal ''no such file''), w)),
       launchHook = (\<lambda>hook m w. (None, w)),
       Now = (\<lambda>w. 0) \<rparr>"

definition example_ctx :: Context where
  "example_ctx =
     \<lparr> ctx_domains = [''example.com''], ctx_csr = [], ctx_csr_set = False, ctx_days = 30,
       ctx_reuse_key = False, ctx_no_bundle = False, ctx_must_staple = False,
       ctx_renew_hook = ''./deploy.sh'' \<rparr>"

definition example_ctx_reuse :: Context where
  "example_ctx_reuse =
     example_ctx\<lparr>ctx_domains := [''www.example.com'', ''example.com''], ctx_reuse_key := True\<rparr>"

definition example_ctx_csr :: Context where
  "example_ctx_csr =
     example_ctx\<lparr>ctx_domains := [], ctx_csr := ''example.csr'', ctx_csr_set := True\<rparr>"

definition example_csr :: CertificateRequest where
  "example_csr = \<lparr>csr_CommonName = ''example.com'', csr_DNSNames = [''example.com'']\<rparr>"

definition example_request_reuse :: ObtainRequest where
  "example_request_reuse =
     \<lparr>Domains = [''example.com'', ''www.example.com''], Bundle = True,
      PrivateKey = Some (ParsedKey ''key''), MustStaple = False\<rparr>"

definition example_meta_www :: meta where
  "example_meta_www =
     [(''LEGO_ACCOUNT_EMAIL'', ''admin@example.com''),
      (''LEGO_CERT_DOMAIN'', ''www.example.com''),
      (''LEGO_CERT_PATH'', ''.lego/certificates/www.example.com.crt''),
      (''LEGO_CERT_KEY_PATH'', ''.lego/certificates/www.example.com.key'')]"

definition example_account :: Account where
  "example_account = \<lparr>Email = ''admin@example.com'', Registration = Some ''registered''\<rparr>"

definition example_request :: ObtainRequest where
  "example_request =
     \<lparr>Domains = [''example.com''], Bundle = True, PrivateKey = None, MustStaple = False\<rparr>"

definition example_resource :: Resource where
  "example_resource = \<lparr>res_Domain = ''example.com'', res_Certificate = ''pem''\<rparr>"

definition example_meta :: meta where
  "example_meta =
     [(''LEGO_ACCOUNT_EMAIL'', ''admin@example.com''),
      (''LEGO_CERT_DOMAIN'', ''example.com''),
      (''LEGO_CERT_PATH'', ''.lego/certificates/example.com.crt''),
      (''LEGO_CERT_KEY_PATH'', ''.lego/certificates/example.com.key'')]"

section \<open>Facts about the reconciler\<close>

lemma found_iff: "found ps d \<longleftrightarrow> d \<in> set ps"
  by (induction ps) auto

lemma remdups_snoc: "remdups (ys @ [x]) = remdups (filter (\<lambda>y. y \<noteq> x) ys) @ [x]"
  by (induction ys) auto

lemma first_occurrences_Cons:
  "rev (remdups (rev (x # xs))) = x # rev (remdups (rev (filter (\<lambda>y. y \<noteq> x) xs)))"
  by (simp add: remdups_snoc rev_filter)

lemma new_domains_Nil: "new_domains p [] = []"
  by (simp add: new_domains_def)

lemma new_domains_Cons_old: "x \<in> set p \<Longrightarrow> new_domains p (x # xs) = new_domains p xs"
  by (simp add: new_domains_def)

lemma new_domains_Cons_new:
  "x \<notin> set p \<Longrightarrow> new_domains p (x # xs) = x # new_domains (p @ [x]) xs"
proof -
  assume "x \<notin> set p"
  have "filter (\<lambda>y. y \<noteq> x) (filter (\<lambda>d. d \<notin> set p) xs)
      = filter (\<lambda>d. d \<notin> set (p @ [x])) xs"
    by (induction xs) auto
  then have "rev (remdups (rev (x # filter (\<lambda>d. d \<notin> set p) xs)))
      = x # rev (remdups (rev (filter (\<lambda>d. d \<notin> set (p @ [x])) xs)))"
    by (simp only: first_occurrences_Cons)
  with \<open>x \<notin> set p\<close> show ?thesis
    by (simp add: new_domains_def)
qed

lemma merge_new_domains: "merge p n = p @ new_domains p n"
proof (induction n arbitrary: p)
  case Nil
  show ?case by (simp add: new_domains_Nil)
next
  case (Cons x xs)
  show ?case
  proof (cases "x \<in> set p")
    case True
    then show ?thesis
      by (simp add: found_iff Cons.IH new_domains_Cons_old)
  next
    case False
    then show ?thesis
      by (simp add: found_iff Cons.IH new_domains_Cons_new)
  qed
qed

lemma set_new_domains: "set (new_domains p n) = set n - set p"
  by (auto simp: new_domains_def)

lemma distinct_new_domains: "distinct (new_domains p n)"
  by (simp add: new_domains_def)

lemma subseq_new_domains: "subseq (new_domains p n) n"
proof (induction n arbitrary: p)
  case Nil
  show ?case by (simp add: new_domains_Nil)
next
  case (Cons x xs)
  show ?case
  proof (cases "x \<in> set p")
    case True
    then show ?thesis
      using Cons.IH [of p] by (simp add: new_domains_Cons_old list_emb_Cons)
  next
    case False
    then show ?thesis
      using Cons.IH [of "p @ [x]"] by (simp add: new_domains_Cons_new)
  qed
qed

lemma length_new_domains: "length (new_domains p n) = card (set n - set p)"
  using distinct_card [OF distinct_new_domains, of p n] by (simp add: set_new_domains)

lemma merge_absorb: "set n \<subseteq> set q \<Longrightarrow> merge q n = q"
  by (induction n arbitrary: q) (auto simp: found_iff)

lemma set_merge: "set (merge p n) = set p \<union> set n"
  by (auto simp: merge_new_domains set_new_domains)

section \<open>The claims about the reconciler\<close>

text \<open>
  C2. For all ordered domain lists \<open>prev\<close> and \<open>next\<close>, \<open>merge prev next\<close> is \<open>prev\<close>,
  unchanged and in its own order, followed by exactly the elements of \<open>next\<close> that are not
  yet present (compared as exact strings), each once, in the order of \<open>next\<close>: the appended
  part is duplicate-free, holds the elements of \<open>next\<close> outside \<open>prev\<close> and nothing else,
  and is a subsequence of \<open>next\<close>. Hence the length of the result is the length of \<open>prev\<close>
  plus the number of distinct elements of \<open>next\<close> outside \<open>prev\<close>, and merging
  \<open>["a.com"]\<close> with \<open>["a.com", "b.com"]\<close> gives \<open>["a.com", "b.com"]\<close>.
\<close>

theorem merge_prefix_then_new:
  "merge p n = p @ new_domains p n
   \<and> take (length p) (merge p n) = p
   \<and> distinct (new_domains p n)
   \<and> set (new_domains p n) = set n - set p
   \<and> subseq (new_domains p n) n
   \<and> length (merge p n) = length p + card (set n - set p)
   \<and> merge [''a.com''] [''a.com'', ''b.com''] = [''a.com'', ''b.com'']"
proof -
  have example: "merge [''a.com''] [''a.com'', ''b.com''] = [''a.com'', ''b.com'']"
    by simp
  have "take (length p) (merge p n) = p"
    by (simp add: merge_new_domains)
  moreover have "length (merge p n) = length p + card (set n - set p)"
    by (simp add: merge_new_domains length_new_domains)
  ultimately show ?thesis
    using example merge_new_domains [of p n] distinct_new_domains [of p n]
      set_new_domains [of p n] subseq_new_domains [of p n]
    by blast
qed

text \<open>
  C9. Merging the same \<open>next\<close> list a second time changes nothing:
  \<open>merge (merge p n) n = merge p n\<close> for all domain lists \<open>p\<close> and \<open>n\<close>.
\<close>

theorem merge_idempotent: "merge (merge p n) n = merge p n"
  by (rule merge_absorb) (simp add: set_merge)

section \<open>Facts about the binary64 model and the days left\<close>

text \<open>
  The rounding \<open>f64\<close> is the one of binary64: for \<open>x \<noteq> 0\<close> the result has a significand
  \<open>m\<close> of at most 53 bits at the exponent \<open>e\<close> of the binade of \<open>x\<close>, and differs from
  \<open>x\<close> by at most half a unit of the last place; of two equally near significands the
  even one is taken; integers below \<open>2\<^sup>5\<^sup>3\<close> are kept.
\<close>

lemma bitlen_pos_bounds:
  assumes "0 < a"
  shows "2 ^ nat (bitlen a - 1) \<le> a \<and> a < 2 ^ nat (bitlen a) \<and> 1 \<le> bitlen a"
  using assms
proof (induction a rule: bitlen.induct)
  case (1 n)
  show ?case
  proof (cases "n = 1")
    case True
    have "bitlen 1 = 1" by code_simp
    with True show ?thesis by simp
  next
    case False
    with "1.prems" have n2: "2 \<le> n" by simp
    then have h: "0 < n div 2" by simp
    have nle: "\<not> n \<le> 0" using n2 by simp
    from "1.IH" [OF nle h]
    have ih: "2 ^ nat (bitlen (n div 2) - 1) \<le> n div 2" "n div 2 < 2 ^ nat (bitlen (n div 2))"
      "1 \<le> bitlen (n div 2)" by simp_all
    have b: "bitlen n = 1 + bitlen (n div 2)"
      using nle by (subst bitlen.simps) simp
    define j where "j = nat (bitlen (n div 2) - 1)"
    have bj: "bitlen (n div 2) = int j + 1"
      using ih(3) by (simp add: j_def)
    have lo: "2 ^ j \<le> n div 2" and hi: "n div 2 < 2 ^ Suc j"
      using ih(1,2) by (simp_all add: bj j_def [symmetric] nat_add_distrib)
    have "2 ^ Suc j \<le> n"
      using lo by simp
    moreover have "n < 2 ^ Suc (Suc j)"
      using hi by simp
    moreover have "nat (bitlen n - 1) = Suc j" "nat (bitlen n) = Suc (Suc j)"
      by (simp_all add: b bj nat_add_distrib)
    ultimately show ?thesis
      by (simp add: b bj)
  qed
qed

lemma round_half_even_near:
  assumes "0 < d"
  shows "\<bar>of_int (round_half_even n d) - (of_int n / of_int d :: rat)\<bar> \<le> 1 / 2"
proof -
  define m0 where "m0 = n div d"
  define r where "r = n mod d"
  have n: "n = m0 * d + r" by (simp add: m0_def r_def)
  have r: "0 \<le> r" "r < d" using assms by (simp_all add: r_def)
  have frac: "(of_int n / of_int d :: rat) = of_int m0 + of_int r / of_int d"
    using assms by (simp add: n field_simps)
  define c where "c \<longleftrightarrow> 2 * r < d \<or> (2 * r = d \<and> even m0)"
  have rhe: "round_half_even n d = (if c then m0 else m0 + 1)"
    unfolding round_half_even_def Let_def c_def m0_def r_def by (rule refl)
  show ?thesis
  proof (cases c)
    case True
    then have "2 * r \<le> d" unfolding c_def by auto
    then have "(of_int r / of_int d :: rat) \<le> 1 / 2"
      using assms by (simp add: field_simps)
    moreover have "0 \<le> (of_int r / of_int d :: rat)"
      using r assms by simp
    ultimately show ?thesis
      using True by (simp add: rhe frac)
  next
    case False
    then have "d \<le> 2 * r" unfolding c_def by auto
    then have "1 / 2 \<le> (of_int r / of_int d :: rat)"
      using assms by (simp add: field_simps)
    moreover have "(of_int r / of_int d :: rat) < 1"
      using r assms by simp
    ultimately show ?thesis
      using False by (simp add: rhe frac)
  qed
qed

lemma two_powi: "(2 :: rat) ^ nat e / 2 ^ nat (- e) = 2 powi e"
proof (cases "0 \<le> e")
  case True
  then show ?thesis by (simp add: power_int_def)
next
  case False
  then show ?thesis by (simp add: power_int_def power_one_over)
qed

lemma two_powi_pos: "0 < (2 :: rat) powi e"
  by (simp add: power_int_def)

lemma pow2_le_of_int: "(2 :: rat) ^ i \<le> of_int a \<longleftrightarrow> 2 ^ i \<le> a"
  using of_int_le_iff [of "2 ^ i" a, where ?'a = rat] by simp

lemma pow2_gr_of_int: "of_int a < (2 :: rat) ^ i \<longleftrightarrow> a < 2 ^ i"
  using of_int_less_iff [of a "2 ^ i", where ?'a = rat] by simp

lemma lead_exp_bounds:
  assumes "0 < a" "0 < q"
  shows "2 powi (lead_exp a q) \<le> (of_int a / of_int q :: rat)
       \<and> (of_int a / of_int q :: rat) < 2 powi (lead_exp a q + 1)"
proof -
  define A :: rat where "A = of_int a"
  define Q :: rat where "Q = of_int q"
  have Q: "0 < Q" and A: "0 < A" using assms by (simp_all add: A_def Q_def)
  define i where "i = nat (bitlen a - 1)"
  define j where "j = nat (bitlen q - 1)"
  have la: "bitlen a = int i + 1" and lq: "bitlen q = int j + 1"
    using bitlen_pos_bounds [OF assms(1)] bitlen_pos_bounds [OF assms(2)]
    by (simp_all add: i_def j_def)
  have "2 ^ i \<le> a" "a < 2 ^ Suc i" "2 ^ j \<le> q" "q < 2 ^ Suc j"
    using bitlen_pos_bounds [OF assms(1)] bitlen_pos_bounds [OF assms(2)]
    by (simp_all add: la lq i_def [symmetric] j_def [symmetric] nat_add_distrib)
  then have b: "2 ^ i \<le> A" "A < 2 ^ Suc i" "2 ^ j \<le> Q" "Q < 2 ^ Suc j"
    unfolding A_def Q_def
    by (simp_all only: pow2_le_of_int pow2_gr_of_int)
  define k where "k = bitlen a - bitlen q"
  have k: "k = int i - int j" by (simp add: k_def la lq)
  have pk: "(2 :: rat) powi k = 2 ^ i / 2 ^ j"
    by (simp add: k power_int_diff)
  have lower: "2 powi (k - 1) < A / Q"
  proof -
    have "2 ^ i * Q < 2 ^ i * 2 ^ Suc j" using b(4) by simp
    also have "\<dots> \<le> A * 2 ^ Suc j" using b(1) by simp
    finally have "2 ^ i / 2 ^ Suc j < A / Q"
      using Q by (simp add: field_simps)
    moreover have "(2 :: rat) powi (k - 1) = 2 ^ i / 2 ^ Suc j"
      by (simp add: power_int_diff pk)
    ultimately show ?thesis by simp
  qed
  have upper: "A / Q < 2 powi (k + 1)"
  proof -
    have "A * 2 ^ j < 2 ^ Suc i * 2 ^ j" using b(2) by simp
    also have "\<dots> \<le> 2 ^ Suc i * Q" using b(3) by simp
    finally have "A / Q < 2 ^ Suc i / 2 ^ j"
      using Q by (simp add: field_simps)
    moreover have "(2 :: rat) powi (k + 1) = 2 ^ Suc i / 2 ^ j"
      by (simp add: power_int_add pk)
    ultimately show ?thesis by simp
  qed
  have test: "(q * 2 ^ nat k \<le> a * 2 ^ nat (- k)) \<longleftrightarrow> 2 powi k \<le> A / Q"
  proof -
    have "(q * 2 ^ nat k \<le> a * 2 ^ nat (- k))
        \<longleftrightarrow> (of_int (q * 2 ^ nat k) :: rat) \<le> of_int (a * 2 ^ nat (- k))"
      by (simp only: of_int_le_iff)
    also have "\<dots> \<longleftrightarrow> Q * 2 ^ nat k \<le> A * 2 ^ nat (- k)"
      by (simp add: A_def Q_def)
    also have "\<dots> \<longleftrightarrow> 2 ^ nat k / 2 ^ nat (- k) \<le> A / Q"
      using Q by (simp add: field_simps)
    finally show ?thesis by (simp only: two_powi)
  qed
  show ?thesis
  proof (cases "q * 2 ^ nat k \<le> a * 2 ^ nat (- k)")
    case True
    then have "lead_exp a q = k"
      by (simp add: lead_exp_def k_def)
    with True test upper show ?thesis
      by (simp add: A_def Q_def)
  next
    case False
    then have "lead_exp a q = k - 1"
      by (simp add: lead_exp_def k_def)
    with False test lower show ?thesis
      by (simp add: A_def Q_def)
  qed
qed

lemma f64_rounds_to_nearest:
  assumes "x \<noteq> 0"
  shows "\<exists>m e. f64 x = of_int m * 2 powi e
             \<and> 2 ^ 52 \<le> \<bar>m\<bar> \<and> \<bar>m\<bar> \<le> 2 ^ 53
             \<and> 2 powi (e + 52) \<le> \<bar>x\<bar> \<and> \<bar>x\<bar> < 2 powi (e + 53)
             \<and> \<bar>f64 x - x\<bar> \<le> 2 powi e / 2"
proof -
  obtain p q where pq: "quotient_of x = (p, q)" by (cases "quotient_of x")
  have q: "0 < q" using pq by (rule quotient_of_denom_pos)
  have x: "x = of_int p / of_int q" using pq by (rule quotient_of_div)
  have p: "p \<noteq> 0" using assms x by auto
  define a where "a = \<bar>p\<bar>"
  have a: "0 < a" using p by (simp add: a_def)
  define s :: rat where "s = of_int (sgn p)"
  have s: "\<bar>s\<bar> = 1" using p by (simp add: s_def sgn_if)
  define X :: rat where "X = of_int a / of_int q"
  have X: "0 < X" using a q by (simp add: X_def)
  have xX: "x = s * X"
    using p by (simp add: x X_def s_def a_def sgn_if)
  define e where "e = lead_exp a q - 52"
  define u :: rat where "u = 2 powi e"
  have u: "0 < u" by (simp add: u_def two_powi_pos)
  have u52: "2 powi (e + 52) = u * 2 ^ 52" and u53: "2 powi (e + 53) = u * 2 ^ 53"
    by (simp_all add: u_def power_int_add)
  have "2 powi (e + 52) \<le> X \<and> X < 2 powi (e + 52 + 1)"
    using lead_exp_bounds [OF a q] by (simp add: e_def X_def)
  then have Xb: "u * 2 ^ 52 \<le> X" "X < u * 2 ^ 53"
    using u52 u53 by (simp_all add: add.assoc)
  define n where "n = a * 2 ^ nat (- e)"
  define d where "d = q * 2 ^ nat e"
  have d: "0 < d" using q by (simp add: d_def)
  define y :: rat where "y = of_int n / of_int d"
  have "y = X * (2 ^ nat (- e) / 2 ^ nat e)"
    by (simp add: y_def n_def d_def X_def)
  also have "(2 :: rat) ^ nat (- e) / 2 ^ nat e = 1 / u"
    using two_powi [of e] by (simp add: u_def field_simps)
  finally have y: "y = X / u" by simp
  have yb: "2 ^ 52 \<le> y" "y < 2 ^ 53"
    using Xb u by (simp_all add: y field_simps)
  define m where "m = round_half_even n d"
  have near: "\<bar>of_int m - y\<bar> \<le> 1 / 2"
    unfolding m_def y_def using d by (rule round_half_even_near)
  have yn: "4503599627370496 \<le> y" "y < 9007199254740992"
    using yb by simp_all
  have "(4503599627370495 :: rat) < of_int m"
    using near yn(1) by linarith
  moreover have "of_int m < (9007199254740993 :: rat)"
    using near yn(2) by linarith
  ultimately have "4503599627370495 < m" and "m < 9007199254740993"
    by simp_all
  then have mb: "2 ^ 52 \<le> m" "m \<le> 2 ^ 53"
    by simp_all
  have fx: "f64 x = s * of_int m * u"
  proof -
    have "f64 x = of_int (sgn p * m) * 2 ^ nat e / 2 ^ nat (- e)"
      unfolding f64_def pq prod.case Let_def a_def [symmetric] e_def [symmetric]
        n_def [symmetric] d_def [symmetric] m_def [symmetric]
      using p by simp
    also have "\<dots> = of_int (sgn p * m) * (2 ^ nat e / 2 ^ nat (- e))"
      by simp
    also have "\<dots> = s * of_int m * u"
      by (simp only: two_powi u_def s_def of_int_mult)
    finally show ?thesis .
  qed
  have Xyu: "X = y * u"
    using u by (simp add: y)
  have "f64 x - x = s * of_int m * u - s * X"
    using fx xX by (rule arg_cong2 [where f = "(-)"])
  also have "\<dots> = s * (of_int m - y) * u"
    by (simp add: Xyu algebra_simps)
  finally have "f64 x - x = s * (of_int m - y) * u" .
  then have "\<bar>f64 x - x\<bar> = \<bar>of_int m - y\<bar> * u"
    using u s by (simp add: abs_mult)
  also have "\<dots> \<le> 1 / 2 * u"
    using near u by (intro mult_right_mono) simp_all
  finally have err: "\<bar>f64 x - x\<bar> \<le> u / 2" by simp
  have absx: "\<bar>x\<bar> = X"
    using X s by (simp add: xX abs_mult)
  have r1: "f64 x = of_int (sgn p * m) * 2 powi e"
    by (simp add: fx s_def u_def)
  have "\<bar>sgn p * m\<bar> = m"
    using p mb by (simp add: abs_mult sgn_if)
  then have r2: "2 ^ 52 \<le> \<bar>sgn p * m\<bar>" "\<bar>sgn p * m\<bar> \<le> 2 ^ 53"
    using mb by simp_all
  have r3: "2 powi (e + 52) \<le> \<bar>x\<bar>" "\<bar>x\<bar> < 2 powi (e + 53)"
    using Xb by (simp_all only: absx u52 u53)
  have r4: "\<bar>f64 x - x\<bar> \<le> 2 powi e / 2"
    using err by (simp only: u_def)
  from r1 r2 r3 r4 show ?thesis
    by blast
qed

lemma round_half_even_tie:
  assumes "2 * (n mod d) = d"
  shows "even (round_half_even n d)"
  using assms by (simp add: round_half_even_def Let_def)

lemma bitlen_le: "0 \<le> a \<Longrightarrow> a < 2 ^ n \<Longrightarrow> bitlen a \<le> int n"
proof (induction n arbitrary: a)
  case 0
  then have "a = 0" by simp
  then show ?case by (subst bitlen.simps) simp
next
  case (Suc n)
  show ?case
  proof (cases "a \<le> 0")
    case True
    then show ?thesis by (subst bitlen.simps) simp
  next
    case False
    have "0 \<le> a div 2" using Suc.prems by simp
    moreover have "a div 2 < 2 ^ n" using Suc.prems by simp
    ultimately have "bitlen (a div 2) \<le> int n" by (rule Suc.IH)
    with False show ?thesis by (subst bitlen.simps) simp
  qed
qed

lemma f64_of_int:
  assumes "\<bar>n\<bar> < 2 ^ 53"
  shows "f64 (of_int n) = of_int n"
proof -
  have q: "quotient_of (of_int n) = (n, 1)" by simp
  define e where "e = lead_exp \<bar>n\<bar> 1 - 52"
  have one: "bitlen 1 = 1" by code_simp
  have "bitlen \<bar>n\<bar> \<le> 53"
    using bitlen_le [of "\<bar>n\<bar>" 53] assms by simp
  then have "lead_exp \<bar>n\<bar> 1 \<le> 52"
    by (simp add: lead_exp_def Let_def one)
  then have e: "nat e = 0" by (simp add: e_def)
  have "f64 (of_int n) = (if n = 0 then 0 else of_int (sgn n * (\<bar>n\<bar> * 2 ^ nat (- e))) / 2 ^ nat (- e))"
    unfolding f64_def q prod.case Let_def e_def [symmetric] e
    by (simp add: round_half_even_def)
  also have "\<dots> = of_int n"
    by (simp add: sgn_if)
  finally show ?thesis .
qed

lemma f64_examples:
  "f64 (1 / 10) = 3602879701896397 / 36028797018963968"
  "f64 (- 2 / 3) = - 6004799503160661 / 9007199254740992"
  "f64 9007199254740993 = 9007199254740992"
  "f64 9007199254740995 = 9007199254740996"
  "f64 (3599999999999 / 3600000000000) = 4503599627369245 / 4503599627370496"
  by code_simp+

lemma f64_zero: "f64 0 = 0"
  by (simp add: f64_def)

lemma Hours_whole:
  assumes "\<bar>h\<bar> < 2 ^ 53"
  shows "Hours (h * Hour) = of_int h"
proof -
  have d: "(h * Hour) sdiv Hour = h"
    by (simp add: signed_divide_int_def Hour_def abs_mult sgn_mult) (simp add: sgn_if)
  have m: "(h * Hour) smod Hour = 0"
    by (simp add: signed_modulo_int_def Hour_def abs_mult)
  show ?thesis
    unfolding Hours_def Let_def d m
    by (simp add: f64_zero f64_of_int [OF assms])
qed

lemma daysLeft_whole_days:
  assumes "\<bar>k\<bar> < 2 ^ 48"
  shows "daysLeft (k * (24 * Hour)) = k"
proof -
  have k53: "\<bar>k\<bar> < 2 ^ 53" using assms by simp
  have "\<bar>24 * k\<bar> < 2 ^ 53" using assms by simp
  then have "Hours (24 * k * Hour) = of_int (24 * k)" by (rule Hours_whole)
  then have "Hours (k * (24 * Hour)) / 24 = of_int k"
    by (simp add: mult.commute mult.left_commute)
  then show ?thesis
    by (simp add: daysLeft_def f64_of_int [OF k53] int_of_float64_def)
qed

text \<open>
  One nanosecond before a whole number of days the quotient can round up to the whole
  number: 200 days less a nanosecond count as 200 days left, 100 days less a nanosecond
  as 99.
\<close>

lemma daysLeft_rounding_example:
  "daysLeft (200 * 24 * Hour - 1) = 200"
  "spec_daysLeft (200 * 24 * Hour - 1) = 199"
  "daysLeft (100 * 24 * Hour - 1) = 99"
  by code_simp+

lemma quotient_of_sign:
  assumes "quotient_of x = (p, q)"
  shows "0 < q" and "(0 \<le> x) = (0 \<le> p)" and "(x \<le> 0) = (p \<le> 0)"
proof -
  show q: "0 < q" using assms by (rule quotient_of_denom_pos)
  have x: "x = of_int p / of_int q" using assms by (rule quotient_of_div)
  show "(0 \<le> x) = (0 \<le> p)" using q by (simp add: x zero_le_divide_iff)
  show "(x \<le> 0) = (p \<le> 0)" using q by (simp add: x divide_le_0_iff)
qed

lemma round_half_even_nonneg:
  assumes "0 \<le> n" "0 < d"
  shows "0 \<le> round_half_even n d"
proof -
  define m0 where "m0 = n div d"
  define c where "c \<longleftrightarrow> 2 * (n mod d) < d \<or> (2 * (n mod d) = d \<and> even m0)"
  have m0: "0 \<le> m0"
    unfolding m0_def using assms by (simp only: pos_imp_zdiv_nonneg_iff)
  have "round_half_even n d = (if c then m0 else m0 + 1)"
    unfolding round_half_even_def Let_def c_def m0_def by (rule refl)
  with m0 show ?thesis
    by (cases c) simp_all
qed

lemma f64_nonneg: "0 \<le> x \<Longrightarrow> 0 \<le> f64 x"
proof -
  assume x: "0 \<le> x"
  obtain p q where pq: "quotient_of x = (p, q)" by (cases "quotient_of x")
  have q: "0 < q" and p: "0 \<le> p" using quotient_of_sign [OF pq] x by simp_all
  define e where "e = lead_exp \<bar>p\<bar> q - 52"
  define m where "m = round_half_even (\<bar>p\<bar> * 2 ^ nat (- e)) (q * 2 ^ nat e)"
  have "0 \<le> m"
    unfolding m_def using q by (intro round_half_even_nonneg) simp_all
  then have "0 \<le> (of_int (sgn p * m) :: rat) * 2 ^ nat e / 2 ^ nat (- e)"
    using p by (simp add: sgn_if)
  then show ?thesis
    unfolding f64_def pq prod.case Let_def e_def [symmetric] m_def [symmetric] by simp
qed

lemma f64_nonpos: "x \<le> 0 \<Longrightarrow> f64 x \<le> 0"
proof -
  assume x: "x \<le> 0"
  obtain p q where pq: "quotient_of x = (p, q)" by (cases "quotient_of x")
  have q: "0 < q" and p: "p \<le> 0" using quotient_of_sign [OF pq] x by simp_all
  define e where "e = lead_exp \<bar>p\<bar> q - 52"
  define m where "m = round_half_even (\<bar>p\<bar> * 2 ^ nat (- e)) (q * 2 ^ nat e)"
  have "0 \<le> m"
    unfolding m_def using q by (intro round_half_even_nonneg) simp_all
  then have "(of_int (sgn p * m) :: rat) * 2 ^ nat e / 2 ^ nat (- e) \<le> 0"
    using p by (simp add: sgn_if divide_le_0_iff mult_le_0_iff)
  then show ?thesis
    unfolding f64_def pq prod.case Let_def e_def [symmetric] m_def [symmetric] by simp
qed

lemma Hours_nonneg: "0 \<le> d \<Longrightarrow> 0 \<le> Hours d"
proof -
  assume d: "0 \<le> d"
  have "0 \<le> d sdiv Hour"
    using d by (simp add: signed_divide_int_def Hour_def sgn_if pos_imp_zdiv_nonneg_iff)
  moreover have "0 \<le> d smod Hour"
    using d by (simp add: signed_modulo_int_def Hour_def sgn_if)
  ultimately show ?thesis
    unfolding Hours_def Let_def
    by (intro f64_nonneg add_nonneg_nonneg divide_nonneg_nonneg) simp_all
qed

lemma Hours_nonpos: "d \<le> 0 \<Longrightarrow> Hours d \<le> 0"
proof -
  assume d: "d \<le> 0"
  have "d sdiv Hour \<le> 0"
    using d by (simp add: signed_divide_int_def Hour_def sgn_if pos_imp_zdiv_nonneg_iff)
  moreover have "d smod Hour \<le> 0"
    using d by (simp add: signed_modulo_int_def Hour_def sgn_if)
  ultimately show ?thesis
    unfolding Hours_def Let_def
    by (intro f64_nonpos add_nonpos_nonpos divide_nonpos_nonneg) simp_all
qed

lemma quotient_nonneg: "0 \<le> d \<Longrightarrow> 0 \<le> f64 (Hours d / 24)"
  by (intro f64_nonneg divide_nonneg_nonneg Hours_nonneg) simp_all

lemma quotient_nonpos: "d \<le> 0 \<Longrightarrow> f64 (Hours d / 24) \<le> 0"
  by (intro f64_nonpos divide_nonpos_nonneg Hours_nonpos) simp_all

lemma int_of_float64_le_iff:
  assumes "0 \<le> days"
  shows "int_of_float64 x \<le> days \<longleftrightarrow> \<lfloor>x\<rfloor> \<le> days"
proof (cases "0 \<le> x")
  case True
  then show ?thesis by (simp add: int_of_float64_def)
next
  case False
  then have "x < 0" by simp
  then have "\<lceil>x\<rceil> \<le> 0" and "\<lfloor>x\<rfloor> \<le> 0"
    by (simp_all add: ceiling_le_iff floor_le_iff)
  with assms have "\<lceil>x\<rceil> \<le> days" and "\<lfloor>x\<rfloor> \<le> days"
    by linarith+
  with False show ?thesis
    unfolding int_of_float64_def by (simp only: if_False)
qed

section \<open>The claims about the decision policy\<close>

text \<open>
  C1. For every certificate that is not a CA certificate, every domain and every
  threshold \<open>d\<close>, \<open>needRenewal\<close> returns a boolean (it does not end the run), and the
  boolean is true if and only if \<open>d < 0\<close> or the computed days left \<open>h\<close> satisfy \<open>h \<le> d\<close>.
  The boundary is inclusive: \<open>h = d\<close> gives true, and \<open>h = d + 1\<close> with \<open>d \<ge> 0\<close> gives false.
\<close>

theorem needRenewal_iff:
  assumes "\<not> IsCA cert" and "h = daysLeft (Until (NotAfter cert) now)"
  shows "needRenewal cert domain d now = Inr (d < 0 \<or> h \<le> d)
       \<and> (h = d \<longrightarrow> needRenewal cert domain d now = Inr True)
       \<and> (0 \<le> d \<and> h = d + 1 \<longrightarrow> needRenewal cert domain d now = Inr False)"
  using assms by (auto simp: needRenewal_def Let_def)

theorem needRenewal_iff_witness:
  "\<not> IsCA (leaf_until (30 * 24 * Hour))
   \<and> 30 = daysLeft (Until (NotAfter (leaf_until (30 * 24 * Hour))) 0)
   \<and> needRenewal (leaf_until (30 * 24 * Hour)) ''example.com'' 30 0 = Inr True
   \<and> daysLeft (Until (NotAfter (leaf_until (31 * 24 * Hour))) 0) = 31
   \<and> needRenewal (leaf_until (31 * 24 * Hour)) ''example.com'' 30 0 = Inr False
   \<and> needRenewal (leaf_until (31 * 24 * Hour)) ''example.com'' (- 1) 0 = Inr True"
proof -
  have leaf: "\<not> IsCA (leaf_until (30 * 24 * Hour))"
    by (simp add: leaf_until_def)
  have h30: "30 = daysLeft (Until (NotAfter (leaf_until (30 * 24 * Hour))) 0)"
    by code_simp
  have "needRenewal (leaf_until (30 * 24 * Hour)) ''example.com'' 30 0 = Inr True"
    using needRenewal_iff [OF leaf h30, of "''example.com''" 30] by simp
  moreover have "daysLeft (Until (NotAfter (leaf_until (31 * 24 * Hour))) 0) = 31"
    by code_simp
  moreover have "needRenewal (leaf_until (31 * 24 * Hour)) ''example.com'' 30 0 = Inr False"
    by code_simp
  moreover have "needRenewal (leaf_until (31 * 24 * Hour)) ''example.com'' (- 1) 0 = Inr True"
    by code_simp
  ultimately show ?thesis
    using leaf h30 by blast
qed

text \<open>
  C7. For every certificate with \<open>IsCA = true\<close>, any domain and any threshold,
  \<open>needRenewal\<close> ends the run with the fatal message about a CA certificate and returns
  no boolean.
\<close>

theorem needRenewal_CA_fatal:
  assumes "IsCA cert"
  shows "needRenewal cert domain d now = Inl (FatalCACertificate domain)"
  using assms by (simp add: needRenewal_def)

theorem needRenewal_CA_fatal_witness:
  "IsCA ca_cert
   \<and> needRenewal ca_cert ''example.com'' 30 0 = Inl (FatalCACertificate ''example.com'')
   \<and> needRenewal ca_cert ''example.com'' (- 1) 0 = Inl (FatalCACertificate ''example.com'')"
proof -
  have ca: "IsCA ca_cert"
    by (simp add: ca_cert_def)
  show ?thesis
    using ca needRenewal_CA_fatal [OF ca, of "''example.com''" 30 0]
      needRenewal_CA_fatal [OF ca, of "''example.com''" "- 1" 0]
    by simp
qed

text \<open>
  C5, as stated, fails: for a certificate that expired 12 hours ago the duration is
  \<open>-12 h\<close>, \<open>Hours() / 24.0\<close> is \<open>-0.5\<close>, and the conversion to \<open>int\<close> gives \<open>0\<close>, while the
  floor is \<open>-1\<close>.
\<close>

theorem daysLeft_floor_counterexample:
  "\<not> IsCA (leaf_until 0)
   \<and> Until (NotAfter (leaf_until 0)) (12 * Hour) = - 12 * Hour
   \<and> f64 (Hours (- 12 * Hour) / 24) = - 1 / 2
   \<and> daysLeft (- 12 * Hour) = 0
   \<and> spec_daysLeft (- 12 * Hour) = - 1
   \<and> daysLeft (Until (NotAfter (leaf_until 0)) (12 * Hour))
       \<noteq> spec_daysLeft (Until (NotAfter (leaf_until 0)) (12 * Hour))"
  by code_simp

text \<open>
  C5, amended. For every certificate that is not a CA certificate and every threshold
  \<open>d \<ge> 0\<close>, the days left \<open>h\<close> is the \<open>float64\<close> quotient \<open>Hours() / 24.0\<close> truncated toward
  zero: its floor when \<open>NotAfter\<close> is not in the past, its ceiling when \<open>NotAfter\<close> is in
  the past. The decision itself is the one the floor would give: \<open>needRenewal\<close> returns
  \<open>h \<le> d\<close>, which for \<open>d \<ge> 0\<close> equals \<open>floor (Hours() / 24.0) \<le> d\<close>.
\<close>

theorem daysLeft_truncates:
  assumes "\<not> IsCA cert" and "0 \<le> days" and "u = Until (NotAfter cert) now"
  shows "(0 \<le> u \<longrightarrow> daysLeft u = \<lfloor>f64 (Hours u / 24)\<rfloor>)
       \<and> (u \<le> 0 \<longrightarrow> daysLeft u = \<lceil>f64 (Hours u / 24)\<rceil>)
       \<and> needRenewal cert domain days now = Inr (daysLeft u \<le> days)
       \<and> needRenewal cert domain days now = Inr (\<lfloor>f64 (Hours u / 24)\<rfloor> \<le> days)"
proof -
  have a: "0 \<le> u \<longrightarrow> daysLeft u = \<lfloor>f64 (Hours u / 24)\<rfloor>"
    using quotient_nonneg [of u] by (simp add: daysLeft_def int_of_float64_def)
  have b: "u \<le> 0 \<longrightarrow> daysLeft u = \<lceil>f64 (Hours u / 24)\<rceil>"
    using quotient_nonpos [of u] by (auto simp: daysLeft_def int_of_float64_def)
  have c: "needRenewal cert domain days now = Inr (daysLeft u \<le> days)"
    using assms by (auto simp: needRenewal_def Let_def)
  have "(daysLeft u \<le> days) = (\<lfloor>f64 (Hours u / 24)\<rfloor> \<le> days)"
    unfolding daysLeft_def using assms(2) by (rule int_of_float64_le_iff)
  with a b c show ?thesis by simp
qed

theorem daysLeft_truncates_witness:
  "\<not> IsCA (leaf_until 0) \<and> (0 :: int) \<le> 30
   \<and> - 12 * Hour = Until (NotAfter (leaf_until 0)) (12 * Hour)
   \<and> - 12 * Hour \<le> 0
   \<and> daysLeft (- 12 * Hour) = \<lceil>f64 (Hours (- 12 * Hour) / 24)\<rceil>
   \<and> daysLeft (- 12 * Hour) = 0
   \<and> needRenewal (leaf_until 0) ''example.com'' 30 (12 * Hour) = Inr True
   \<and> daysLeft (10 * 24 * Hour) = \<lfloor>f64 (Hours (10 * 24 * Hour) / 24)\<rfloor>
   \<and> daysLeft (10 * 24 * Hour) = 10"
proof -
  have leaf: "\<not> IsCA (leaf_until 0)"
    by (simp add: leaf_until_def)
  have d: "(0 :: int) \<le> 30"
    by simp
  have u: "- 12 * Hour = Until (NotAfter (leaf_until 0)) (12 * Hour)"
    by code_simp
  have past: "- 12 * Hour \<le> 0"
    by (simp add: Hour_def)
  have zero: "daysLeft (- 12 * Hour) = 0"
    by code_simp
  have "needRenewal (leaf_until 0) ''example.com'' 30 (12 * Hour) = Inr True"
    using daysLeft_truncates [OF leaf d u, of "''example.com''"] zero by simp
  moreover have "daysLeft (- 12 * Hour) = \<lceil>f64 (Hours (- 12 * Hour) / 24)\<rceil>"
    using daysLeft_truncates [OF leaf d u, of "''example.com''"] past by blast
  moreover have "daysLeft (10 * 24 * Hour) = \<lfloor>f64 (Hours (10 * 24 * Hour) / 24)\<rfloor>"
    by code_simp
  moreover have "daysLeft (10 * 24 * Hour) = 10"
    by code_simp
  ultimately show ?thesis
    using leaf d u past zero by blast
qed

section \<open>Facts about the renewal workflow\<close>

lemma hook_calls_append: "hook_calls (xs @ ys) = hook_calls xs @ hook_calls ys"
  by (induction xs rule: hook_calls.induct) simp_all

lemma issued_append: "issued (xs @ ys) \<longleftrightarrow> issued xs \<or> issued ys"
  by (induction xs rule: issued.induct) simp_all

lemma final_meta:
  "AList.update renewEnvCertKeyPath c
     (AList.update renewEnvCertPath b
        (AList.update renewEnvCertDomain a [(renewEnvAccountEmail, e)]))
   = [(renewEnvAccountEmail, e), (renewEnvCertDomain, a), (renewEnvCertPath, b),
      (renewEnvCertKeyPath, c)]"
  by (simp add: renewEnvAccountEmail_def renewEnvCertDomain_def renewEnvCertPath_def
      renewEnvCertKeyPath_def)

lemma obtain_for_domains_hook_only_if:
  assumes "obtain_for_domains co ctx bundle m domain cert key w = (out, tr, w')"
    and "hook_calls tr \<noteq> []"
  shows "\<exists>certRes w2.
           Obtain co \<lparr>Domains = merge (ExtractDomains co cert) (ctx_domains ctx),
                        Bundle = bundle, PrivateKey = key,
                        MustStaple = ctx_must_staple ctx\<rparr> w = (Inr certRes, w2)"
  using assms
  unfolding obtain_for_domains_def Let_def
  by (auto split: prod.splits sum.splits)

lemma after_eq:
  assumes "after evs r = (out, tr, w')"
  shows "\<exists>tr0. r = (out, tr0, w') \<and> tr = evs @ tr0"
  using assms by (cases r) (auto simp: after_def)

text \<open>The run of \<open>renewForDomains\<close> on each path, by the results of the collaborators.\<close>

lemma renewForDomains_no_domain:
  "ctx_domains ctx = [] \<Longrightarrow> renewForDomains co ctx bundle m w = (Inl PanicIndexOutOfRange, [], w)"
  by (simp add: renewForDomains_def)

lemma renewForDomains_load_error:
  assumes "ctx_domains ctx = domain # ds"
    and "ReadCertificate co domain ''.crt'' w = (Inl err, w1)"
  shows "renewForDomains co ctx bundle m w
           = (Inl (FatalLoadCertificate domain err), [EvReadCertificate domain ''.crt''], w1)"
  using assms by (simp add: renewForDomains_def after_def)

lemma renewForDomains_no_certificate:
  assumes "ctx_domains ctx = domain # ds"
    and "ReadCertificate co domain ''.crt'' w = (Inr [], w1)"
  shows "renewForDomains co ctx bundle m w
           = (Inl PanicIndexOutOfRange, [EvReadCertificate domain ''.crt''], w1)"
  using assms by (simp add: renewForDomains_def after_def)

lemma renewForDomains_fatal_decision:
  assumes "ctx_domains ctx = domain # ds"
    and "ReadCertificate co domain ''.crt'' w = (Inr (cert # cs), w1)"
    and "needRenewal cert domain (ctx_days ctx) (Now co w1) = Inl f"
  shows "renewForDomains co ctx bundle m w = (Inl f, [EvReadCertificate domain ''.crt''], w1)"
  using assms by (simp add: renewForDomains_def after_def)

lemma renewForDomains_skip:
  assumes "ctx_domains ctx = domain # ds"
    and "ReadCertificate co domain ''.crt'' w = (Inr (cert # cs), w1)"
    and "needRenewal cert domain (ctx_days ctx) (Now co w1) = Inr False"
  shows "renewForDomains co ctx bundle m w = (Inr None, [EvReadCertificate domain ''.crt''], w1)"
  using assms by (simp add: renewForDomains_def after_def)

lemma renewForDomains_new_key:
  assumes "ctx_domains ctx = domain # ds"
    and "ReadCertificate co domain ''.crt'' w = (Inr (cert # cs), w1)"
    and "needRenewal cert domain (ctx_days ctx) (Now co w1) = Inr True"
    and "\<not> ctx_reuse_key ctx"
  shows "renewForDomains co ctx bundle m w
           = after [EvReadCertificate domain ''.crt'']
               (obtain_for_domains co ctx bundle m domain cert None w1)"
  using assms by (simp add: renewForDomains_def)

lemma renewForDomains_key_load_error:
  assumes "ctx_domains ctx = domain # ds"
    and "ReadCertificate co domain ''.crt'' w = (Inr (cert # cs), w1)"
    and "needRenewal cert domain (ctx_days ctx) (Now co w1) = Inr True"
    and "ctx_reuse_key ctx"
    and "ReadFile co domain ''.key'' w1 = (Inl errR, w2)"
  shows "renewForDomains co ctx bundle m w
           = (Inl (FatalLoadKey domain errR),
              [EvReadCertificate domain ''.crt'', EvReadFile domain ''.key''], w2)"
  using assms by (simp add: renewForDomains_def after_def)

lemma renewForDomains_key_parse_error:
  assumes "ctx_domains ctx = domain # ds"
    and "ReadCertificate co domain ''.crt'' w = (Inr (cert # cs), w1)"
    and "needRenewal cert domain (ctx_days ctx) (Now co w1) = Inr True"
    and "ctx_reuse_key ctx"
    and "ReadFile co domain ''.key'' w1 = (Inr keyBytes, w2)"
    and "ParsePEMPrivateKey co keyBytes = Inl errR"
  shows "renewForDomains co ctx bundle m w
           = (Inr (Some errR),
              [EvReadCertificate domain ''.crt'', EvReadFile domain ''.key''], w2)"
  using assms by (simp add: renewForDomains_def after_def)

lemma renewForDomains_reused_key:
  assumes "ctx_domains ctx = domain # ds"
    and "ReadCertificate co domain ''.crt'' w = (Inr (cert # cs), w1)"
    and "needRenewal cert domain (ctx_days ctx) (Now co w1) = Inr True"
    and "ctx_reuse_key ctx"
    and "ReadFile co domain ''.key'' w1 = (Inr keyBytes, w2)"
    and "ParsePEMPrivateKey co keyBytes = Inr k"
  shows "renewForDomains co ctx bundle m w
           = after [EvReadCertificate domain ''.crt'', EvReadFile domain ''.key'']
               (obtain_for_domains co ctx bundle m domain cert (Some k) w2)"
  using assms by (simp add: renewForDomains_def after_def split: prod.splits)

lemma renewForDomains_hook_only_if:
  assumes run: "renewForDomains co ctx bundle m w = (out, tr, w')"
    and hook: "hook_calls tr \<noteq> []"
  shows "\<exists>domain ds cert cs w1 key wk certRes w2.
           ctx_domains ctx = domain # ds
           \<and> ReadCertificate co domain ''.crt'' w = (Inr (cert # cs), w1)
           \<and> needRenewal cert domain (ctx_days ctx) (Now co w1) = Inr True
           \<and> ((\<not> ctx_reuse_key ctx \<and> key = None \<and> wk = w1)
                \<or> (ctx_reuse_key ctx
                    \<and> (\<exists>keyBytes k. ReadFile co domain ''.key'' w1 = (Inr keyBytes, wk)
                          \<and> ParsePEMPrivateKey co keyBytes = Inr k \<and> key = Some k)))
           \<and> Obtain co \<lparr>Domains = merge (ExtractDomains co cert) (ctx_domains ctx),
                          Bundle = bundle, PrivateKey = key,
                          MustStaple = ctx_must_staple ctx\<rparr> wk = (Inr certRes, w2)"
proof (cases "ctx_domains ctx")
  case Nil
  from run hook show ?thesis
    unfolding renewForDomains_no_domain [OF Nil] by auto
next
  case (Cons domain ds)
  note dom = this
  obtain rc w1 where rc: "ReadCertificate co domain ''.crt'' w = (rc, w1)"
    by (cases "ReadCertificate co domain ''.crt'' w")
  show ?thesis
  proof (cases rc)
    case (Inl err)
    from run hook show ?thesis
      unfolding renewForDomains_load_error [OF dom rc [unfolded Inl]] by auto
  next
    case (Inr certificates)
    note rc' = rc [unfolded Inr]
    show ?thesis
    proof (cases certificates)
      case Nil
      from run hook show ?thesis
        unfolding renewForDomains_no_certificate [OF dom rc' [unfolded Nil]] by auto
    next
      case (Cons cert cs)
      note rd = rc' [unfolded Cons]
      show ?thesis
      proof (cases "needRenewal cert domain (ctx_days ctx) (Now co w1)")
        case (Inl f)
        from run hook show ?thesis
          unfolding renewForDomains_fatal_decision [OF dom rd Inl] by auto
      next
        case (Inr need)
        show ?thesis
        proof (cases need)
          case False
          then have nf: "need = False" by simp
          from run hook show ?thesis
            unfolding renewForDomains_skip [OF dom rd Inr [unfolded nf]] by auto
        next
          case True
          then have nt: "need = True" by simp
          note dec = Inr [unfolded nt]
          show ?thesis
          proof (cases "ctx_reuse_key ctx")
            case False
            from run have "after [EvReadCertificate domain ''.crt'']
                (obtain_for_domains co ctx bundle m domain cert None w1) = (out, tr, w')"
              by (simp only: renewForDomains_new_key [OF dom rd dec False])
            from after_eq [OF this] obtain tr0 where
              r: "obtain_for_domains co ctx bundle m domain cert None w1 = (out, tr0, w')"
              and tr: "tr = [EvReadCertificate domain ''.crt''] @ tr0"
              by (elim exE conjE)
            from hook tr have "hook_calls tr0 \<noteq> []" by simp
            from obtain_for_domains_hook_only_if [OF r this] obtain certRes w2 where
              "Obtain co \<lparr>Domains = merge (ExtractDomains co cert) (ctx_domains ctx),
                          Bundle = bundle, PrivateKey = None,
                          MustStaple = ctx_must_staple ctx\<rparr> w1 = (Inr certRes, w2)"
              by blast
            with dom rd dec False show ?thesis by blast
          next
            case True
            note reuse = this
            obtain rf w2 where rf: "ReadFile co domain ''.key'' w1 = (rf, w2)"
              by (cases "ReadFile co domain ''.key'' w1")
            show ?thesis
            proof (cases rf)
              case (Inl errR)
              from run hook show ?thesis
                unfolding renewForDomains_key_load_error [OF dom rd dec reuse rf [unfolded Inl]]
                by auto
            next
              case (Inr keyBytes)
              note rk = rf [unfolded Inr]
              show ?thesis
              proof (cases "ParsePEMPrivateKey co keyBytes")
                case (Inl errR)
                from run hook show ?thesis
                  unfolding renewForDomains_key_parse_error [OF dom rd dec reuse rk Inl]
                  by auto
              next
                case (Inr k)
                from run have "after [EvReadCertificate domain ''.crt'', EvReadFile domain ''.key'']
                    (obtain_for_domains co ctx bundle m domain cert (Some k) w2) = (out, tr, w')"
                  by (simp only: renewForDomains_reused_key [OF dom rd dec reuse rk Inr])
                from after_eq [OF this] obtain tr0 where
                  r: "obtain_for_domains co ctx bundle m domain cert (Some k) w2 = (out, tr0, w')"
                  and tr: "tr = [EvReadCertificate domain ''.crt'', EvReadFile domain ''.key''] @ tr0"
                  by (elim exE conjE)
                from hook tr have "hook_calls tr0 \<noteq> []" by simp
                from obtain_for_domains_hook_only_if [OF r this] obtain certRes w3 where
                  "Obtain co \<lparr>Domains = merge (ExtractDomains co cert) (ctx_domains ctx),
                              Bundle = bundle, PrivateKey = Some k,
                              MustStaple = ctx_must_staple ctx\<rparr> w2 = (Inr certRes, w3)"
                  by blast
                with dom rd dec reuse rk Inr show ?thesis by blast
              qed
            qed
          qed
        qed
      qed
    qed
  qed
qed

lemma save_and_notify_run:
  assumes "save_and_notify co ctx [(renewEnvAccountEmail, e)] domain certRes w = (out, tr, w')"
  shows "hook_calls tr = [hook_call_of co ctx e domain] \<and> \<not> issued tr \<and> (\<exists>err. out = Inr err)"
  using assms
  unfolding save_and_notify_def Let_def final_meta hook_call_of_def
  by (auto split: prod.splits)

lemma obtain_for_domains_run:
  assumes "obtain_for_domains co ctx bundle [(renewEnvAccountEmail, e)] domain cert key w = (out, tr, w')"
  shows "(issued tr \<and> hook_calls tr = [hook_call_of co ctx e domain] \<and> (\<exists>err. out = Inr err))
       \<or> (\<not> issued tr \<and> hook_calls tr = [] \<and> (\<exists>f. out = Inl f))"
  using assms
  by (auto simp: obtain_for_domains_def Let_def after_def
      split: prod.splits sum.splits dest: save_and_notify_run)

lemma decided_run:
  fixes continue :: "'w run"
  assumes "(case needRenewal cert domain days now of
              Inl f \<Rightarrow> (Inl f, [], w1)
            | Inr need \<Rightarrow> if \<not> need then (Inr None, [], w1) else continue) = (out, tr, w')"
  shows "(needRenewal cert domain days now = Inr True \<and> continue = (out, tr, w'))
       \<or> (needRenewal cert domain days now \<noteq> Inr True \<and> tr = [] \<and> w' = w1
           \<and> (needRenewal cert domain days now = Inr False \<longrightarrow> out = Inr None)
           \<and> (\<forall>f. needRenewal cert domain days now = Inl f \<longrightarrow> out = Inl f))"
  using assms by (auto split: sum.splits if_splits)

lemma renewForDomains_run:
  assumes "renewForDomains co ctx bundle [(renewEnvAccountEmail, e)] w = (out, tr, w')"
  shows "(issued tr \<and> (\<exists>domain. hook_calls tr = [hook_call_of co ctx e domain]) \<and> (\<exists>err. out = Inr err))
       \<or> (\<not> issued tr \<and> hook_calls tr = [])"
  using assms
  by (auto simp: renewForDomains_def after_def
      split: prod.splits sum.splits list.splits if_splits dest!: obtain_for_domains_run)

lemma renewForCSR_run:
  assumes "renewForCSR co ctx bundle [(renewEnvAccountEmail, e)] w = (out, tr, w')"
  shows "(issued tr \<and> (\<exists>domain. hook_calls tr = [hook_call_of co ctx e domain]) \<and> (\<exists>err. out = Inr err))
       \<or> (\<not> issued tr \<and> hook_calls tr = [])"
  using assms
  by (auto simp: renewForCSR_def after_def Let_def
      split: prod.splits sum.splits list.splits if_splits dest!: save_and_notify_run)

lemma renew_run:
  assumes "renew co ctx account w = (out, tr, w')"
  shows "(issued tr \<and> (\<exists>domain. hook_calls tr = [hook_call_of co ctx (Email account) domain]) \<and> (\<exists>err. out = Inr err))
       \<or> (\<not> issued tr \<and> hook_calls tr = [])"
  using assms
  by (auto simp: renew_def Let_def split: if_splits dest!: renewForDomains_run renewForCSR_run)

lemma renewForCSR_skip:
  assumes "readCSRFile co (ctx_csr ctx) w = (Inr csr, w0)"
    and "ReadCertificate co (csr_CommonName csr) ''.crt'' w0 = (Inr (cert # cs), w1)"
    and "needRenewal cert (csr_CommonName csr) (ctx_days ctx) (Now co w1) = Inr False"
  shows "renewForCSR co ctx bundle m w
           = (Inr None, [EvReadCSRFile (ctx_csr ctx),
                         EvReadCertificate (csr_CommonName csr) ''.crt''], w1)"
  using assms by (simp add: renewForCSR_def after_def)

lemma renewForDomains_issued:
  assumes "ctx_domains ctx = domain # ds"
    and "ReadCertificate co domain ''.crt'' w = (Inr (cert # cs), w1)"
    and "needRenewal cert domain (ctx_days ctx) (Now co w1) = Inr True"
    and "(\<not> ctx_reuse_key ctx \<and> key = None \<and> wk = w1)
         \<or> (ctx_reuse_key ctx
             \<and> (\<exists>keyBytes k. ReadFile co domain ''.key'' w1 = (Inr keyBytes, wk)
                   \<and> ParsePEMPrivateKey co keyBytes = Inr k \<and> key = Some k))"
    and "request = \<lparr>Domains = merge (ExtractDomains co cert) (ctx_domains ctx),
                     Bundle = bundle, PrivateKey = key, MustStaple = ctx_must_staple ctx\<rparr>"
    and "Obtain co request wk = (Inr certRes, w2)"
    and "launchHook co (ctx_renew_hook ctx) (snd (hook_call_of co ctx e domain))
           (SaveResource co certRes w2) = (err, w3)"
  shows "renewForDomains co ctx bundle [(renewEnvAccountEmail, e)] w
           = (Inr err,
              EvReadCertificate domain ''.crt''
                # (if ctx_reuse_key ctx then [EvReadFile domain ''.key''] else [])
                @ [EvObtain request (Inr certRes), EvSaveResource certRes,
                   EvLaunchHook (ctx_renew_hook ctx) (snd (hook_call_of co ctx e domain))],
              w3)"
  using assms
  unfolding renewForDomains_def obtain_for_domains_def save_and_notify_def Let_def final_meta
    hook_call_of_def
  by (auto simp: after_def)

lemma renewForCSR_issued:
  assumes "readCSRFile co (ctx_csr ctx) w = (Inr csr, w0)"
    and "ReadCertificate co (csr_CommonName csr) ''.crt'' w0 = (Inr (cert # cs), w1)"
    and "needRenewal cert (csr_CommonName csr) (ctx_days ctx) (Now co w1) = Inr True"
    and "ObtainForCSR co csr bundle w1 = (Inr certRes, w2)"
    and "launchHook co (ctx_renew_hook ctx) (snd (hook_call_of co ctx e (csr_CommonName csr)))
           (SaveResource co certRes w2) = (err, w3)"
  shows "renewForCSR co ctx bundle [(renewEnvAccountEmail, e)] w
           = (Inr err,
              [EvReadCSRFile (ctx_csr ctx), EvReadCertificate (csr_CommonName csr) ''.crt'',
               EvObtainForCSR csr bundle (Inr certRes), EvSaveResource certRes,
               EvLaunchHook (ctx_renew_hook ctx)
                 (snd (hook_call_of co ctx e (csr_CommonName csr)))],
              w3)"
  using assms
  unfolding renewForCSR_def save_and_notify_def Let_def final_meta hook_call_of_def
  by (auto simp: after_def)

lemma renewForCSR_hook_only_if:
  assumes "renewForCSR co ctx bundle m w = (out, tr, w')" and "hook_calls tr \<noteq> []"
  shows "\<exists>csr w0 cert cs w1 certRes w2.
           readCSRFile co (ctx_csr ctx) w = (Inr csr, w0)
           \<and> ReadCertificate co (csr_CommonName csr) ''.crt'' w0 = (Inr (cert # cs), w1)
           \<and> needRenewal cert (csr_CommonName csr) (ctx_days ctx) (Now co w1) = Inr True
           \<and> ObtainForCSR co csr bundle w1 = (Inr certRes, w2)"
  using assms
  unfolding renewForCSR_def save_and_notify_def Let_def
  by (auto simp: after_def split: prod.splits sum.splits list.splits if_splits)

section \<open>The claim about the hook\<close>

text \<open>
  C6. In every run of \<open>renew\<close> the hook is launched if and only if issuance succeeded.
  If the run is driven by the domain list and \<open>Obtain\<close> returns a certificate for the
  request built from the stored certificate of \<open>domains[0]\<close> (with or without the reused
  key), or if it is driven by a CSR and \<open>ObtainForCSR\<close> returns a certificate, then the
  certificate is saved and the hook is launched exactly once, with the configured command
  and a metadata map of exactly four entries: the account email, the certificate domain
  (\<open>domains[0]\<close>, or the common name of the CSR), the certificate file path and the key
  file path of that domain; the run returns what the hook returns. Conversely the hook is
  launched only if such an issuing call returned a certificate. It is launched at most
  once, never when the run ends fatally, and never when the decision policy returns
  false, in which case the run returns \<open>nil\<close> without issuing anything.
\<close>

theorem hook_iff_issued:
  assumes "renew co ctx account w = (out, tr, w')"
  shows "(\<forall>domain ds cert cs w1 key wk certRes w2.
            Registration account \<noteq> None \<and> \<not> ctx_csr_set ctx
            \<and> ctx_domains ctx = domain # ds
            \<and> ReadCertificate co domain ''.crt'' w = (Inr (cert # cs), w1)
            \<and> needRenewal cert domain (ctx_days ctx) (Now co w1) = Inr True
            \<and> ((\<not> ctx_reuse_key ctx \<and> key = None \<and> wk = w1)
                 \<or> (ctx_reuse_key ctx
                     \<and> (\<exists>keyBytes k. ReadFile co domain ''.key'' w1 = (Inr keyBytes, wk)
                           \<and> ParsePEMPrivateKey co keyBytes = Inr k \<and> key = Some k)))
            \<and> Obtain co \<lparr>Domains = merge (ExtractDomains co cert) (ctx_domains ctx),
                           Bundle = \<not> ctx_no_bundle ctx, PrivateKey = key,
                           MustStaple = ctx_must_staple ctx\<rparr> wk = (Inr certRes, w2)
            \<longrightarrow> hook_calls tr =
                  [(ctx_renew_hook ctx,
                    [(renewEnvAccountEmail, Email account),
                     (renewEnvCertDomain, domain),
                     (renewEnvCertPath, GetFileName co domain ''.crt''),
                     (renewEnvCertKeyPath, GetFileName co domain ''.key'')])]
                \<and> EvSaveResource certRes \<in> set tr
                \<and> (out, w') =
                    (Inr (fst (launchHook co (ctx_renew_hook ctx)
                       [(renewEnvAccountEmail, Email account),
                        (renewEnvCertDomain, domain),
                        (renewEnvCertPath, GetFileName co domain ''.crt''),
                        (renewEnvCertKeyPath, GetFileName co domain ''.key'')]
                       (SaveResource co certRes w2))),
                     snd (launchHook co (ctx_renew_hook ctx)
                       [(renewEnvAccountEmail, Email account),
                        (renewEnvCertDomain, domain),
                        (renewEnvCertPath, GetFileName co domain ''.crt''),
                        (renewEnvCertKeyPath, GetFileName co domain ''.key'')]
                       (SaveResource co certRes w2))))
       \<and> (\<forall>csr w0 cert cs w1 certRes w2.
            Registration account \<noteq> None \<and> ctx_csr_set ctx
            \<and> readCSRFile co (ctx_csr ctx) w = (Inr csr, w0)
            \<and> ReadCertificate co (csr_CommonName csr) ''.crt'' w0 = (Inr (cert # cs), w1)
            \<and> needRenewal cert (csr_CommonName csr) (ctx_days ctx) (Now co w1) = Inr True
            \<and> ObtainForCSR co csr (\<not> ctx_no_bundle ctx) w1 = (Inr certRes, w2)
            \<longrightarrow> hook_calls tr =
                  [(ctx_renew_hook ctx,
                    [(renewEnvAccountEmail, Email account),
                     (renewEnvCertDomain, csr_CommonName csr),
                     (renewEnvCertPath, GetFileName co (csr_CommonName csr) ''.crt''),
                     (renewEnvCertKeyPath, GetFileName co (csr_CommonName csr) ''.key'')])]
                \<and> EvSaveResource certRes \<in> set tr
                \<and> (out, w') =
                    (Inr (fst (launchHook co (ctx_renew_hook ctx)
                       [(renewEnvAccountEmail, Email account),
                        (renewEnvCertDomain, csr_CommonName csr),
                        (renewEnvCertPath, GetFileName co (csr_CommonName csr) ''.crt''),
                        (renewEnvCertKeyPath, GetFileName co (csr_CommonName csr) ''.key'')]
                       (SaveResource co certRes w2))),
                     snd (launchHook co (ctx_renew_hook ctx)
                       [(renewEnvAccountEmail, Email account),
                        (renewEnvCertDomain, csr_CommonName csr),
                        (renewEnvCertPath, GetFileName co (csr_CommonName csr) ''.crt''),
                        (renewEnvCertKeyPath, GetFileName co (csr_CommonName csr) ''.key'')]
                       (SaveResource co certRes w2))))
       \<and> (hook_calls tr \<noteq> [] \<longrightarrow>
            Registration account \<noteq> None
            \<and> ((\<not> ctx_csr_set ctx
                 \<and> (\<exists>domain ds cert cs w1 key wk certRes w2.
                       ctx_domains ctx = domain # ds
                       \<and> ReadCertificate co domain ''.crt'' w = (Inr (cert # cs), w1)
                       \<and> needRenewal cert domain (ctx_days ctx) (Now co w1) = Inr True
                       \<and> ((\<not> ctx_reuse_key ctx \<and> key = None \<and> wk = w1)
                            \<or> (ctx_reuse_key ctx
                                \<and> (\<exists>keyBytes k.
                                      ReadFile co domain ''.key'' w1 = (Inr keyBytes, wk)
                                      \<and> ParsePEMPrivateKey co keyBytes = Inr k
                                      \<and> key = Some k)))
                       \<and> Obtain co \<lparr>Domains = merge (ExtractDomains co cert) (ctx_domains ctx),
                                      Bundle = \<not> ctx_no_bundle ctx, PrivateKey = key,
                                      MustStaple = ctx_must_staple ctx\<rparr> wk
                           = (Inr certRes, w2)))
                \<or> (ctx_csr_set ctx
                    \<and> (\<exists>csr w0 cert cs w1 certRes w2.
                          readCSRFile co (ctx_csr ctx) w = (Inr csr, w0)
                          \<and> ReadCertificate co (csr_CommonName csr) ''.crt'' w0
                              = (Inr (cert # cs), w1)
                          \<and> needRenewal cert (csr_CommonName csr) (ctx_days ctx) (Now co w1)
                              = Inr True
                          \<and> ObtainForCSR co csr (\<not> ctx_no_bundle ctx) w1
                              = (Inr certRes, w2)))))
       \<and> (hook_calls tr \<noteq> [] \<longleftrightarrow> issued tr)
       \<and> length (hook_calls tr) \<le> 1
       \<and> ((\<exists>f. out = Inl f) \<longrightarrow> hook_calls tr = [])
       \<and> (\<forall>domain ds cert cs w1.
            Registration account \<noteq> None \<and> \<not> ctx_csr_set ctx
            \<and> ctx_domains ctx = domain # ds
            \<and> ReadCertificate co domain ''.crt'' w = (Inr (cert # cs), w1)
            \<and> needRenewal cert domain (ctx_days ctx) (Now co w1) = Inr False
            \<longrightarrow> out = Inr None \<and> hook_calls tr = [] \<and> \<not> issued tr)
       \<and> (\<forall>csr w0 cert cs w1.
            Registration account \<noteq> None \<and> ctx_csr_set ctx
            \<and> readCSRFile co (ctx_csr ctx) w = (Inr csr, w0)
            \<and> ReadCertificate co (csr_CommonName csr) ''.crt'' w0 = (Inr (cert # cs), w1)
            \<and> needRenewal cert (csr_CommonName csr) (ctx_days ctx) (Now co w1) = Inr False
            \<longrightarrow> out = Inr None \<and> hook_calls tr = [] \<and> \<not> issued tr)"
proof -
  note run = renew_run [OF assms, unfolded hook_call_of_def]
  have a: "hook_calls tr =
             [(ctx_renew_hook ctx,
               [(renewEnvAccountEmail, Email account),
                (renewEnvCertDomain, domain),
                (renewEnvCertPath, GetFileName co domain ''.crt''),
                (renewEnvCertKeyPath, GetFileName co domain ''.key'')])]
           \<and> EvSaveResource certRes \<in> set tr
           \<and> (out, w') =
               (Inr (fst (launchHook co (ctx_renew_hook ctx)
                  [(renewEnvAccountEmail, Email account),
                   (renewEnvCertDomain, domain),
                   (renewEnvCertPath, GetFileName co domain ''.crt''),
                   (renewEnvCertKeyPath, GetFileName co domain ''.key'')]
                  (SaveResource co certRes w2))),
                snd (launchHook co (ctx_renew_hook ctx)
                  [(renewEnvAccountEmail, Email account),
                   (renewEnvCertDomain, domain),
                   (renewEnvCertPath, GetFileName co domain ''.crt''),
                   (renewEnvCertKeyPath, GetFileName co domain ''.key'')]
                  (SaveResource co certRes w2)))"
    if reg: "Registration account \<noteq> None" and var: "\<not> ctx_csr_set ctx"
      and p: "ctx_domains ctx = domain # ds"
        "ReadCertificate co domain ''.crt'' w = (Inr (cert # cs), w1)"
        "needRenewal cert domain (ctx_days ctx) (Now co w1) = Inr True"
        "(\<not> ctx_reuse_key ctx \<and> key = None \<and> wk = w1)
          \<or> (ctx_reuse_key ctx
              \<and> (\<exists>keyBytes k. ReadFile co domain ''.key'' w1 = (Inr keyBytes, wk)
                    \<and> ParsePEMPrivateKey co keyBytes = Inr k \<and> key = Some k))"
      and ob: "Obtain co \<lparr>Domains = merge (ExtractDomains co cert) (ctx_domains ctx),
                           Bundle = \<not> ctx_no_bundle ctx, PrivateKey = key,
                           MustStaple = ctx_must_staple ctx\<rparr> wk = (Inr certRes, w2)"
    for domain ds cert cs w1 key wk certRes w2
  proof -
    obtain err w3 where
      l: "launchHook co (ctx_renew_hook ctx) (snd (hook_call_of co ctx (Email account) domain))
            (SaveResource co certRes w2) = (err, w3)"
      by (cases "launchHook co (ctx_renew_hook ctx)
            (snd (hook_call_of co ctx (Email account) domain)) (SaveResource co certRes w2)")
    have r: "renew co ctx account w
        = renewForDomains co ctx (\<not> ctx_no_bundle ctx) [(renewEnvAccountEmail, Email account)] w"
      using reg var by (auto simp: renew_def Let_def)
    from assms [unfolded r renewForDomains_issued [OF p refl ob l]]
    have "out = Inr err" and "w' = w3"
      and "tr = EvReadCertificate domain ''.crt''
             # (if ctx_reuse_key ctx then [EvReadFile domain ''.key''] else [])
             @ [EvObtain \<lparr>Domains = merge (ExtractDomains co cert) (ctx_domains ctx),
                          Bundle = \<not> ctx_no_bundle ctx, PrivateKey = key,
                          MustStaple = ctx_must_staple ctx\<rparr> (Inr certRes),
                EvSaveResource certRes,
                EvLaunchHook (ctx_renew_hook ctx)
                  (snd (hook_call_of co ctx (Email account) domain))]"
      by simp_all
    with l show ?thesis
      by (simp add: hook_call_of_def hook_calls_append)
  qed
  have b: "hook_calls tr =
             [(ctx_renew_hook ctx,
               [(renewEnvAccountEmail, Email account),
                (renewEnvCertDomain, csr_CommonName csr),
                (renewEnvCertPath, GetFileName co (csr_CommonName csr) ''.crt''),
                (renewEnvCertKeyPath, GetFileName co (csr_CommonName csr) ''.key'')])]
           \<and> EvSaveResource certRes \<in> set tr
           \<and> (out, w') =
               (Inr (fst (launchHook co (ctx_renew_hook ctx)
                  [(renewEnvAccountEmail, Email account),
                   (renewEnvCertDomain, csr_CommonName csr),
                   (renewEnvCertPath, GetFileName co (csr_CommonName csr) ''.crt''),
                   (renewEnvCertKeyPath, GetFileName co (csr_CommonName csr) ''.key'')]
                  (SaveResource co certRes w2))),
                snd (launchHook co (ctx_renew_hook ctx)
                  [(renewEnvAccountEmail, Email account),
                   (renewEnvCertDomain, csr_CommonName csr),
                   (renewEnvCertPath, GetFileName co (csr_CommonName csr) ''.crt''),
                   (renewEnvCertKeyPath, GetFileName co (csr_CommonName csr) ''.key'')]
                  (SaveResource co certRes w2)))"
    if reg: "Registration account \<noteq> None" and var: "ctx_csr_set ctx"
      and p: "readCSRFile co (ctx_csr ctx) w = (Inr csr, w0)"
        "ReadCertificate co (csr_CommonName csr) ''.crt'' w0 = (Inr (cert # cs), w1)"
        "needRenewal cert (csr_CommonName csr) (ctx_days ctx) (Now co w1) = Inr True"
        "ObtainForCSR co csr (\<not> ctx_no_bundle ctx) w1 = (Inr certRes, w2)"
    for csr w0 cert cs w1 certRes w2
  proof -
    obtain err w3 where
      l: "launchHook co (ctx_renew_hook ctx)
            (snd (hook_call_of co ctx (Email account) (csr_CommonName csr)))
            (SaveResource co certRes w2) = (err, w3)"
      by (cases "launchHook co (ctx_renew_hook ctx)
            (snd (hook_call_of co ctx (Email account) (csr_CommonName csr)))
            (SaveResource co certRes w2)")
    have r: "renew co ctx account w
        = renewForCSR co ctx (\<not> ctx_no_bundle ctx) [(renewEnvAccountEmail, Email account)] w"
      using reg var by (auto simp: renew_def Let_def)
    from assms [unfolded r renewForCSR_issued [OF p l]]
    have "out = Inr err" and "w' = w3"
      and "tr = [EvReadCSRFile (ctx_csr ctx), EvReadCertificate (csr_CommonName csr) ''.crt'',
               EvObtainForCSR csr (\<not> ctx_no_bundle ctx) (Inr certRes), EvSaveResource certRes,
               EvLaunchHook (ctx_renew_hook ctx)
                 (snd (hook_call_of co ctx (Email account) (csr_CommonName csr)))]"
      by simp_all
    with l show ?thesis
      by (simp add: hook_call_of_def)
  qed
  have c: "Registration account \<noteq> None
            \<and> ((\<not> ctx_csr_set ctx
                 \<and> (\<exists>domain ds cert cs w1 key wk certRes w2.
                       ctx_domains ctx = domain # ds
                       \<and> ReadCertificate co domain ''.crt'' w = (Inr (cert # cs), w1)
                       \<and> needRenewal cert domain (ctx_days ctx) (Now co w1) = Inr True
                       \<and> ((\<not> ctx_reuse_key ctx \<and> key = None \<and> wk = w1)
                            \<or> (ctx_reuse_key ctx
                                \<and> (\<exists>keyBytes k.
                                      ReadFile co domain ''.key'' w1 = (Inr keyBytes, wk)
                                      \<and> ParsePEMPrivateKey co keyBytes = Inr k
                                      \<and> key = Some k)))
                       \<and> Obtain co \<lparr>Domains = merge (ExtractDomains co cert) (ctx_domains ctx),
                                      Bundle = \<not> ctx_no_bundle ctx, PrivateKey = key,
                                      MustStaple = ctx_must_staple ctx\<rparr> wk
                           = (Inr certRes, w2)))
                \<or> (ctx_csr_set ctx
                    \<and> (\<exists>csr w0 cert cs w1 certRes w2.
                          readCSRFile co (ctx_csr ctx) w = (Inr csr, w0)
                          \<and> ReadCertificate co (csr_CommonName csr) ''.crt'' w0
                              = (Inr (cert # cs), w1)
                          \<and> needRenewal cert (csr_CommonName csr) (ctx_days ctx) (Now co w1)
                              = Inr True
                          \<and> ObtainForCSR co csr (\<not> ctx_no_bundle ctx) w1
                              = (Inr certRes, w2))))"
    if hook: "hook_calls tr \<noteq> []"
  proof -
    have reg: "Registration account \<noteq> None"
      using assms hook by (auto simp: renew_def split: if_splits)
    show ?thesis
    proof (cases "ctx_csr_set ctx")
      case True
      with assms reg have "renewForCSR co ctx (\<not> ctx_no_bundle ctx)
          [(renewEnvAccountEmail, Email account)] w = (out, tr, w')"
        by (auto simp: renew_def Let_def)
      from renewForCSR_hook_only_if [OF this hook] reg True show ?thesis
        by simp
    next
      case False
      with assms reg have "renewForDomains co ctx (\<not> ctx_no_bundle ctx)
          [(renewEnvAccountEmail, Email account)] w = (out, tr, w')"
        by (auto simp: renew_def Let_def)
      from renewForDomains_hook_only_if [OF this hook] reg False show ?thesis
        by simp
    qed
  qed
  have d: "hook_calls tr \<noteq> [] \<longleftrightarrow> issued tr"
    using run by auto
  have e: "length (hook_calls tr) \<le> 1"
    using run by auto
  have f: "(\<exists>f. out = Inl f) \<longrightarrow> hook_calls tr = []"
    using run by auto
  have g: "out = Inr None \<and> hook_calls tr = [] \<and> \<not> issued tr"
    if "Registration account \<noteq> None" "\<not> ctx_csr_set ctx" "ctx_domains ctx = domain # ds"
      "ReadCertificate co domain ''.crt'' w = (Inr (cert # cs), w1)"
      "needRenewal cert domain (ctx_days ctx) (Now co w1) = Inr False"
    for domain ds cert cs w1
    using assms that renewForDomains_skip [OF that(3,4,5)]
    by (auto simp: renew_def Let_def)
  have h: "out = Inr None \<and> hook_calls tr = [] \<and> \<not> issued tr"
    if "Registration account \<noteq> None" "ctx_csr_set ctx"
      "readCSRFile co (ctx_csr ctx) w = (Inr csr, w0)"
      "ReadCertificate co (csr_CommonName csr) ''.crt'' w0 = (Inr (cert # cs), w1)"
      "needRenewal cert (csr_CommonName csr) (ctx_days ctx) (Now co w1) = Inr False"
    for csr w0 cert cs w1
    using assms that renewForCSR_skip [OF that(3,4,5)]
    by (auto simp: renew_def Let_def)
  show ?thesis
    apply (intro conjI allI impI)
    subgoal for domain ds cert cs w1 key wk certRes w2 by (rule a [THEN conjunct1]) blast+
    subgoal for domain ds cert cs w1 key wk certRes w2
      by (rule a [THEN conjunct2, THEN conjunct1]) blast+
    subgoal for domain ds cert cs w1 key wk certRes w2
      by (rule a [THEN conjunct2, THEN conjunct2]) blast+
    subgoal for csr w0 cert cs w1 certRes w2 by (rule b [THEN conjunct1]) blast+
    subgoal for csr w0 cert cs w1 certRes w2
      by (rule b [THEN conjunct2, THEN conjunct1]) blast+
    subgoal for csr w0 cert cs w1 certRes w2
      by (rule b [THEN conjunct2, THEN conjunct2]) blast+
    subgoal using c by blast
    subgoal using c by blast
    subgoal using d by blast
    subgoal using e by blast
    subgoal using f by blast
    subgoal for domain ds cert cs w1 using g by blast
    subgoal for domain ds cert cs w1 using g by blast
    subgoal for domain ds cert cs w1 using g by blast
    subgoal for csr w0 cert cs w1 using h by blast
    subgoal for csr w0 cert cs w1 using h by blast
    subgoal for csr w0 cert cs w1 using h by blast
    done
qed

theorem hook_iff_issued_witness:
  "renew example_co example_ctx_reuse example_account []
     = (Inr None,
        [EvReadCertificate ''www.example.com'' ''.crt'',
         EvReadFile ''www.example.com'' ''.key'',
         EvObtain example_request_reuse (Inr example_resource),
         EvSaveResource example_resource,
         EvLaunchHook ''./deploy.sh'' example_meta_www],
        [''example.com''])
   \<and> hook_calls [EvReadCertificate ''www.example.com'' ''.crt'',
         EvReadFile ''www.example.com'' ''.key'',
         EvObtain example_request_reuse (Inr example_resource),
         EvSaveResource example_resource,
         EvLaunchHook ''./deploy.sh'' example_meta_www]
       = [(''./deploy.sh'', example_meta_www)]
   \<and> renew example_co example_ctx example_account []
     = (Inr None,
        [EvReadCertificate ''example.com'' ''.crt'',
         EvObtain example_request (Inr example_resource),
         EvSaveResource example_resource,
         EvLaunchHook ''./deploy.sh'' example_meta],
        [''example.com''])
   \<and> renew example_co example_ctx_csr example_account []
     = (Inr None,
        [EvReadCSRFile ''example.csr'',
         EvReadCertificate ''example.com'' ''.crt'',
         EvObtainForCSR example_csr True (Inr example_resource),
         EvSaveResource example_resource,
         EvLaunchHook ''./deploy.sh'' example_meta],
        [''example.com''])
   \<and> renew example_co (example_ctx\<lparr>ctx_days := 5\<rparr>) example_account []
     = (Inr None, [EvReadCertificate ''example.com'' ''.crt''], [])
   \<and> renew (example_co\<lparr>Obtain := (\<lambda>request w. (Inl (ErrExternal ''acme: error''), w))\<rparr>)
        example_ctx example_account []
     = (Inl (FatalError (ErrExternal ''acme: error'')),
        [EvReadCertificate ''example.com'' ''.crt'',
         EvObtain example_request (Inl (ErrExternal ''acme: error''))],
        [])"
proof -
  have run: "renew example_co example_ctx_reuse example_account []
     = (Inr None,
        [EvReadCertificate ''www.example.com'' ''.crt'',
         EvReadFile ''www.example.com'' ''.key'',
         EvObtain example_request_reuse (Inr example_resource),
         EvSaveResource example_resource,
         EvLaunchHook ''./deploy.sh'' example_meta_www],
        [''example.com''])"
    by code_simp
  have reg: "Registration example_account \<noteq> None" and var: "\<not> ctx_csr_set example_ctx_reuse"
    and dom: "ctx_domains example_ctx_reuse = ''www.example.com'' # [''example.com'']"
    and reuse: "ctx_reuse_key example_ctx_reuse"
    by (simp_all add: example_account_def example_ctx_reuse_def example_ctx_def)
  have rc: "ReadCertificate example_co ''www.example.com'' ''.crt'' []
      = (Inr (leaf_until (10 * 24 * Hour) # []), [])"
    by (simp add: example_co_def)
  have dec: "needRenewal (leaf_until (10 * 24 * Hour)) ''www.example.com''
      (ctx_days example_ctx_reuse) (Now example_co []) = Inr True"
    by code_simp
  have rf: "ReadFile example_co ''www.example.com'' ''.key'' [] = (Inr ''key'', [])"
    and pk: "ParsePEMPrivateKey example_co ''key'' = Inr (ParsedKey ''key'')"
    by (simp_all add: example_co_def)
  have ob: "Obtain example_co
      \<lparr>Domains = merge (ExtractDomains example_co (leaf_until (10 * 24 * Hour)))
                   (ctx_domains example_ctx_reuse),
       Bundle = \<not> ctx_no_bundle example_ctx_reuse,
       PrivateKey = Some (ParsedKey ''key''),
       MustStaple = ctx_must_staple example_ctx_reuse\<rparr> [] = (Inr example_resource, [])"
    by code_simp
  have key: "(\<not> ctx_reuse_key example_ctx_reuse \<and> Some (ParsedKey ''key'') = None \<and> [] = [])
       \<or> (ctx_reuse_key example_ctx_reuse
           \<and> (\<exists>keyBytes k. ReadFile example_co ''www.example.com'' ''.key'' [] = (Inr keyBytes, [])
                 \<and> ParsePEMPrivateKey example_co keyBytes = Inr k
                 \<and> Some (ParsedKey ''key'') = Some k))"
    using reuse rf pk by blast
  note first = hook_iff_issued [OF run, THEN conjunct1, rule_format,
      of "''www.example.com''" "[''example.com'']" "leaf_until (10 * 24 * Hour)" "[]" "[]"
         "Some (ParsedKey ''key'')" "[]" example_resource "[]"]
  have hook: "hook_calls [EvReadCertificate ''www.example.com'' ''.crt'',
         EvReadFile ''www.example.com'' ''.key'',
         EvObtain example_request_reuse (Inr example_resource),
         EvSaveResource example_resource,
         EvLaunchHook ''./deploy.sh'' example_meta_www]
       = [(ctx_renew_hook example_ctx_reuse,
           [(renewEnvAccountEmail, Email example_account),
            (renewEnvCertDomain, ''www.example.com''),
            (renewEnvCertPath, GetFileName example_co ''www.example.com'' ''.crt''),
            (renewEnvCertKeyPath, GetFileName example_co ''www.example.com'' ''.key'')])]"
    using first reg var dom rc dec key ob by blast
  have hook': "hook_calls [EvReadCertificate ''www.example.com'' ''.crt'',
         EvReadFile ''www.example.com'' ''.key'',
         EvObtain example_request_reuse (Inr example_resource),
         EvSaveResource example_resource,
         EvLaunchHook ''./deploy.sh'' example_meta_www]
       = [(''./deploy.sh'', example_meta_www)]"
    unfolding hook
    by (simp add: example_ctx_reuse_def example_ctx_def example_account_def example_co_def
        example_meta_www_def renewEnvAccountEmail_def renewEnvCertDomain_def
        renewEnvCertPath_def renewEnvCertKeyPath_def)
  have plain: "renew example_co example_ctx example_account []
     = (Inr None,
        [EvReadCertificate ''example.com'' ''.crt'',
         EvObtain example_request (Inr example_resource),
         EvSaveResource example_resource,
         EvLaunchHook ''./deploy.sh'' example_meta],
        [''example.com''])"
    by code_simp
  have csr: "renew example_co example_ctx_csr example_account []
     = (Inr None,
        [EvReadCSRFile ''example.csr'',
         EvReadCertificate ''example.com'' ''.crt'',
         EvObtainForCSR example_csr True (Inr example_resource),
         EvSaveResource example_resource,
         EvLaunchHook ''./deploy.sh'' example_meta],
        [''example.com''])"
    by code_simp
  have skip: "renew example_co (example_ctx\<lparr>ctx_days := 5\<rparr>) example_account []
     = (Inr None, [EvReadCertificate ''example.com'' ''.crt''], [])"
    by code_simp
  have failed: "renew (example_co\<lparr>Obtain := (\<lambda>request w. (Inl (ErrExternal ''acme: error''), w))\<rparr>)
        example_ctx example_account []
     = (Inl (FatalError (ErrExternal ''acme: error'')),
        [EvReadCertificate ''example.com'' ''.crt'',
         EvObtain example_request (Inl (ErrExternal ''acme: error''))],
        [])"
    by code_simp
  from run hook' plain csr skip failed show ?thesis
    by (intro conjI)
qed

section \<open>The claims about provider construction\<close>

text \<open>
  C8. \<open>NewDNSProviderConfig\<close> returns a configuration error if and only if the
  configuration is \<open>nil\<close>, its API key is empty, or its TTL is below the floor of 600; in
  every other case, and only then, it returns a provider (holding that configuration) and
  no error. The result is either the error or the provider, never both, so a rejected
  configuration yields no provider on which a runtime call could be made.
\<close>

theorem NewDNSProviderConfig_error_iff:
  "((\<exists>e. NewDNSProviderConfig nc cfg = Inl e \<and> ConfigurationError e)
      \<longleftrightarrow> (cfg = None \<or> (\<exists>c. cfg = Some c \<and> (APIKey c = [] \<or> TTL c < 600))))
   \<and> ((\<exists>d. NewDNSProviderConfig nc cfg = Inr d \<and> Some (config d) = cfg)
      \<longleftrightarrow> (\<exists>c. cfg = Some c \<and> APIKey c \<noteq> [] \<and> 600 \<le> TTL c))"
  by (cases cfg) (auto simp: NewDNSProviderConfig_def minTTL_def ConfigurationError_def Let_def)

theorem NewDNSProviderConfig_error_iff_witness:
  "NewDNSProviderConfig plain_client None = Inl ErrNilConfig
   \<and> NewDNSProviderConfig plain_client (Some (cfg_zero_wait\<lparr>APIKey := []\<rparr>)) = Inl ErrCredentialsMissing
   \<and> NewDNSProviderConfig plain_client (Some (cfg_zero_wait\<lparr>TTL := 599\<rparr>)) = Inl (ErrInvalidTTL 599 600)
   \<and> NewDNSProviderConfig plain_client (Some cfg_zero_wait) = Inr prov_zero_wait
   \<and> (\<exists>d. NewDNSProviderConfig plain_client (Some cfg_zero_wait) = Inr d
          \<and> Some (config d) = Some cfg_zero_wait)"
  using NewDNSProviderConfig_error_iff [of plain_client "Some cfg_zero_wait"]
  by (simp add: NewDNSProviderConfig_def minTTL_def cfg_zero_wait_def prov_zero_wait_def)

text \<open>
  C3, as stated, fails: a configuration with a credential, a TTL of 600 and both
  durations zero is accepted, and \<open>Timeout\<close> of the provider built from it is \<open>(0, 0)\<close>.
\<close>

theorem Timeout_order_counterexample:
  "NewDNSProviderConfig plain_client (Some cfg_zero_wait) = Inr prov_zero_wait
   \<and> Timeout prov_zero_wait = (0, 0)
   \<and> \<not> (0 < snd (Timeout prov_zero_wait)
          \<and> snd (Timeout prov_zero_wait) < fst (Timeout prov_zero_wait))"
  by (simp add: NewDNSProviderConfig_def minTTL_def cfg_zero_wait_def prov_zero_wait_def
      Timeout_def)

text \<open>
  C3, amended. For every provider that \<open>NewDNSProviderConfig\<close> constructs, \<open>Timeout\<close>
  returns the configuration's \<open>PropagationTimeout\<close> and \<open>PollingInterval\<close> unchanged, and
  construction does not check them: \<open>0 < pollInterval < timeout\<close> holds for the provider
  if and only if it holds for the configuration it was built from (as it does for the
  defaults of \<open>NewDefaultConfig\<close>, 120 s and 2 s).
\<close>

theorem Timeout_returns_config:
  assumes "NewDNSProviderConfig nc cfg = Inr d"
  shows "\<exists>c. cfg = Some c
           \<and> Timeout d = (PropagationTimeout c, PollingInterval c)
           \<and> ((0 < snd (Timeout d) \<and> snd (Timeout d) < fst (Timeout d))
                \<longleftrightarrow> (0 < PollingInterval c \<and> PollingInterval c < PropagationTimeout c))"
  using assms
  by (cases cfg) (auto simp: NewDNSProviderConfig_def Timeout_def Let_def split: if_splits)

theorem Timeout_returns_config_witness:
  "NewDNSProviderConfig plain_client (Some ((NewDefaultConfig env_unset)\<lparr>APIKey := ''key''\<rparr>))
     = Inr prov_default
   \<and> Timeout prov_default = (120000000000, 2000000000)
   \<and> 0 < snd (Timeout prov_default) \<and> snd (Timeout prov_default) < fst (Timeout prov_default)"
proof -
  have built: "NewDNSProviderConfig plain_client
      (Some ((NewDefaultConfig env_unset)\<lparr>APIKey := ''key''\<rparr>)) = Inr prov_default"
    by (simp add: NewDNSProviderConfig_def NewDefaultConfig_def env_unset_def minTTL_def
        plain_client_def prov_default_def)
  show ?thesis
    using built Timeout_returns_config [OF built]
    by (simp add: NewDefaultConfig_def env_unset_def Second_def)
qed

section \<open>The claims about \<open>Present\<close> and \<open>CleanUp\<close>\<close>

text \<open>
  C10. \<open>Present\<close> and \<open>CleanUp\<close> do not depend on their \<open>token\<close> argument: for any two
  tokens, with the same provider, domain, key authorization and backend state, each of
  them returns the same result, issues the same backend operations and leaves the same
  backend state.
\<close>

theorem token_ignored:
  "Present dns01 ops d domain t1 keyAuth s = Present dns01 ops d domain t2 keyAuth s
   \<and> CleanUp dns01 ops d domain t1 keyAuth s = CleanUp dns01 ops d domain t2 keyAuth s"
  by (simp add: Present_def CleanUp_def)




end
